theory Spec2Isabelle
  imports Complex_Main "HOL-Library.Product_Lexorder" "HOL-Library.Sublist" "HOL-Library.Multiset"
begin

section \<open>Content aggregation pipeline (utils.py and \<open>popular\<close> of views.py)\<close>

subsection \<open>Stored rows\<close>

text \<open>
  The offer type of an availability row: the \<open>type\<close> column of \<open>BaseProvider\<close>,
  whose choices are \<open>flatrate\<close>, \<open>rent\<close> and \<open>buy\<close>.
\<close>

datatype offer_type = Flatrate | Rent | Buy

text \<open>\<open>StreamingProvider\<close> of models.py.\<close>

record streaming_provider =
  sp_name :: string
  sp_tmdb_id :: int
  sp_logo_path :: string
  sp_display_priority :: int

text \<open>
  One prefetched availability row of an item (\<open>providers_list\<close>): the provider it
  points to and the offer type.
\<close>

record provider_info =
  pi_provider :: streaming_provider
  pi_type :: offer_type

text \<open>
  A \<open>Movie\<close> or \<open>TVShow\<close> row as \<open>process_content_item\<close> reads it. The float
  columns \<open>popularity\<close> and \<open>rating\<close> are modelled as reals: the stored values are
  finite floats, and comparing finite floats is comparing the reals they denote.
  \<open>None\<close> stands for a NULL column. A movie carries its \<open>release_date\<close>, a TV
  show its \<open>first_air_date\<close>; a date is kept as the text of the column.
\<close>

record content_row =
  c_tmdb_id :: int
  c_title :: string
  c_overview :: "string option"
  c_poster_path :: "string option"
  c_popularity :: "real option"
  c_rating :: "real option"
  c_vote_count :: "int option"
  c_release_date :: "string option"
  c_first_air_date :: "string option"
  c_providers_list :: "provider_info list"

subsection \<open>Formatting helpers\<close>

text \<open>Python's \<open>str\<close> on an integer: decimal digits, with a minus sign when negative.\<close>

definition digit_char :: "nat \<Rightarrow> char" where
  "digit_char d = ''0123456789'' ! d"

fun str_nat :: "nat \<Rightarrow> string" where
  "str_nat n = (if n < 10 then [digit_char n] else str_nat (n div 10) @ [digit_char (n mod 10)])"

definition str_int :: "int \<Rightarrow> string" where
  "str_int i = (if i < 0 then CHR ''-'' # str_nat (nat (- i)) else str_nat (nat i))"

text \<open>\<open>get_poster_url\<close>; \<open>settings.MEDIA_URL\<close> is the parameter \<open>media_url\<close>.\<close>

definition get_poster_url :: "string \<Rightarrow> string option \<Rightarrow> string option" where
  "get_poster_url media_url poster_path =
     (case poster_path of
        None \<Rightarrow> None
      | Some p \<Rightarrow>
          if p = [] then None
          else if prefix ''posters/'' p then Some (media_url @ p)
          else if prefix ''http://'' p \<or> prefix ''https://'' p then Some p
          else Some (''https://image.tmdb.org/t/p/w500'' @ p))"

text \<open>\<open>get_provider_logo_url\<close>.\<close>

definition get_provider_logo_url :: "string option \<Rightarrow> string option" where
  "get_provider_logo_url logo_path =
     (case logo_path of
        None \<Rightarrow> None
      | Some p \<Rightarrow>
          if p = [] \<or> p = ''None'' then None
          else if prefix ''/'' p then Some (''https://image.tmdb.org/t/p/w92'' @ p)
          else Some (''https://image.tmdb.org/t/p/w92'' @ ''/'' @ p))"

subsection \<open>Display records\<close>

record provider_data =
  pd_provider_name :: string
  pd_logo_path :: "string option"
  pd_provider_id :: int

record providers_dict =
  flatrate :: "provider_data list"
  rent :: "provider_data list"
  buy :: "provider_data list"
  available :: bool

text \<open>
  \<open>_extract_providers_for_item\<close>: every prefetched row is appended to the bucket of
  its offer type, in the order of \<open>providers_list\<close>; \<open>available\<close> says that some
  bucket is not empty.
\<close>

definition make_provider_data :: "provider_info \<Rightarrow> provider_data" where
  "make_provider_data info =
     \<lparr>pd_provider_name = sp_name (pi_provider info),
      pd_logo_path = get_provider_logo_url (Some (sp_logo_path (pi_provider info))),
      pd_provider_id = sp_tmdb_id (pi_provider info)\<rparr>"

fun add_provider :: "providers_dict \<Rightarrow> provider_info \<Rightarrow> providers_dict" where
  "add_provider providers info =
     (case pi_type info of
        Flatrate \<Rightarrow> providers\<lparr>flatrate := flatrate providers @ [make_provider_data info]\<rparr>
      | Rent \<Rightarrow> providers\<lparr>rent := rent providers @ [make_provider_data info]\<rparr>
      | Buy \<Rightarrow> providers\<lparr>buy := buy providers @ [make_provider_data info]\<rparr>)"

definition extract_providers_for_item :: "content_row \<Rightarrow> providers_dict" where
  "extract_providers_for_item item =
     (let providers = foldl add_provider
            \<lparr>flatrate = [], rent = [], buy = [], available = False\<rparr> (c_providers_list item)
      in providers\<lparr>available :=
            flatrate providers \<noteq> [] \<or> rent providers \<noteq> [] \<or> buy providers \<noteq> []\<rparr>)"

datatype media_type = MovieT | TvT

definition media_type_str :: "media_type \<Rightarrow> string" where
  "media_type_str t = (case t of MovieT \<Rightarrow> ''movie'' | TvT \<Rightarrow> ''tv'')"

record content_dict =
  d_id :: string
  d_title :: string
  d_overview :: "string option"
  d_poster_url :: "string option"
  d_rating :: real
  d_vote_count :: int
  d_release_date :: "string option"
  d_media_type :: string
  d_popularity :: real
  d_streaming_providers :: providers_dict
  d_in_watchlist :: bool

text \<open>
  \<open>process_content_item\<close>: a missing rating or popularity becomes \<open>0.0\<close>, a missing
  or zero vote count becomes \<open>0\<close>, the date is the release date of a movie and the
  first air date of a TV show.
\<close>

definition process_content_item ::
  "string \<Rightarrow> content_row \<Rightarrow> string list \<Rightarrow> media_type \<Rightarrow> content_dict" where
  "process_content_item media_url item watchlist_ids mt =
     \<lparr>d_id = str_int (c_tmdb_id item),
      d_title = c_title item,
      d_overview = c_overview item,
      d_poster_url = get_poster_url media_url (c_poster_path item),
      d_rating = (case c_rating item of Some r \<Rightarrow> r | None \<Rightarrow> 0),
      d_vote_count = (case c_vote_count item of Some v \<Rightarrow> v | None \<Rightarrow> 0),
      d_release_date = (if mt = MovieT then c_release_date item else c_first_air_date item),
      d_media_type = media_type_str mt,
      d_popularity = (case c_popularity item of Some p \<Rightarrow> p | None \<Rightarrow> 0),
      d_streaming_providers = extract_providers_for_item item,
      d_in_watchlist = (str_int (c_tmdb_id item) \<in> set watchlist_ids)\<rparr>"

subsection \<open>Sorting the merged list\<close>

text \<open>
  \<open>list.sort(key=..., reverse=True)\<close>: a stable sort by descending key, in which
  records of equal key keep the order they had. It is the reversal of the stable
  ascending sort of the reversed list.
\<close>

definition sort_reverse :: "('a \<Rightarrow> 'k::linorder) \<Rightarrow> 'a list \<Rightarrow> 'a list" where
  "sort_reverse key xs = rev (sort_key key (rev xs))"

text \<open>The key of \<open>popular\<close>: the pair (popularity, rating), compared as Python compares
  tuples, that is lexicographically.\<close>

definition popular_key :: "content_dict \<Rightarrow> real \<times> real" where
  "popular_key x = (d_popularity x, d_rating x)"

text \<open>
  The list \<open>popular\<close> hands to the paginator: the processed movies, then the
  processed TV shows, sorted.
\<close>

definition all_content_dicts ::
  "string \<Rightarrow> string list \<Rightarrow> content_row list \<Rightarrow> content_row list \<Rightarrow> content_dict list" where
  "all_content_dicts media_url watchlist_ids movies_qs tv_shows_qs =
     sort_reverse popular_key
       (map (\<lambda>item. process_content_item media_url item watchlist_ids MovieT) movies_qs @
        map (\<lambda>item. process_content_item media_url item watchlist_ids TvT) tv_shows_qs)"


section \<open>Pagination (\<open>paginate_results\<close> of utils.py, over the paginator of the framework)\<close>

text \<open>
  Everything a Python call can raise in the modelled code is a value of this type.
\<close>

datatype error =
    PageNotAnInteger | EmptyPage | ZeroDivisionError
  | KeyError | ValueError | RequestException | IntegrityError | MultipleObjectsReturned
  | UnboundLocalError

text \<open>
  The page argument: \<open>popular\<close> passes \<open>request.GET.get('page', 1)\<close>, which is the
  text of the query parameter or the integer 1; the repository's tests also pass
  integers.
\<close>

datatype py_value = PyInt int | PyStr string | PyNone

text \<open>
  \<open>int(number)\<close>, the conversion the paginator applies to the page argument; \<open>None\<close>
  is its \<open>TypeError\<close> or \<open>ValueError\<close>. On an integer it is the integer, on \<open>None\<close>
  it raises. On a text it is the built-in conversion of the interpreter, which is
  not code of the repository and whose answer depends on the interpreter (which
  characters it strips and reads as digits, how many digits it accepts): it is the
  parameter \<open>int_of_text\<close> of the model, and nothing is assumed about it.
\<close>

definition py_int :: "(string \<Rightarrow> int option) \<Rightarrow> py_value \<Rightarrow> int option" where
  "py_int int_of_text v =
     (case v of PyInt n \<Rightarrow> Some n | PyStr s \<Rightarrow> int_of_text s | PyNone \<Rightarrow> None)"

text \<open>
  Python's slice \<open>xs[lo:hi]\<close> for integer bounds: a negative bound counts from the
  end, and both bounds are clamped to the list.
\<close>

definition py_slice :: "'a list \<Rightarrow> int \<Rightarrow> int \<Rightarrow> 'a list" where
  "py_slice xs lo hi =
     (let n = int (length xs);
          clamp = (\<lambda>i. if i < 0 then max (n + i) 0 else min i n)
      in take (nat (clamp hi - clamp lo)) (drop (nat (clamp lo)) xs))"

text \<open>
  The paginator of the web framework, as \<open>paginate_results\<close> builds it: the object
  list and the page size, with no orphans and an empty first page allowed (the
  defaults). The framework is not part of the repository; these definitions follow
  its documented behaviour: \<open>validate_number\<close> raises \<open>PageNotAnInteger\<close> when the
  number has no integer value, \<open>EmptyPage\<close> when it is below 1 or above
  \<open>num_pages\<close>; \<open>num_pages\<close> is the ceiling of \<open>max(1, count) / per_page\<close>;
  \<open>page\<close> slices the object list.
\<close>

record 'a paginator =
  object_list :: "'a list"
  per_page :: int

record 'a page =
  pg_object_list :: "'a list"
  pg_number :: int
  pg_paginator :: "'a paginator"

definition count :: "'a paginator \<Rightarrow> int" where
  "count p = int (length (object_list p))"

definition num_pages :: "'a paginator \<Rightarrow> error + int" where
  "num_pages p =
     (let hits = max 1 (count p)
      in if per_page p = 0 then Inl ZeroDivisionError
         else Inr (- ((- hits) div per_page p)))"

definition validate_number ::
  "(string \<Rightarrow> int option) \<Rightarrow> 'a paginator \<Rightarrow> py_value \<Rightarrow> error + int" where
  "validate_number int_of_text p number =
     (case py_int int_of_text number of
        None \<Rightarrow> Inl PageNotAnInteger
      | Some n \<Rightarrow>
          if n < 1 then Inl EmptyPage
          else (case num_pages p of
                  Inl e \<Rightarrow> Inl e
                | Inr np \<Rightarrow> if n > np then Inl EmptyPage else Inr n))"

definition page ::
  "(string \<Rightarrow> int option) \<Rightarrow> 'a paginator \<Rightarrow> py_value \<Rightarrow> error + 'a page" where
  "page int_of_text p number =
     (case validate_number int_of_text p number of
        Inl e \<Rightarrow> Inl e
      | Inr n \<Rightarrow>
          let bottom = (n - 1) * per_page p;
              top = bottom + per_page p;
              top' = (if top \<ge> count p then count p else top)
          in Inr \<lparr>pg_object_list = py_slice (object_list p) bottom top',
                  pg_number = n, pg_paginator = p\<rparr>)"

text \<open>
  \<open>paginate_results\<close>: the two \<open>except\<close> clauses retry with page 1 and with the
  last page; an error of the retry, or any other error, reaches the caller.
\<close>

definition paginate_results ::
  "(string \<Rightarrow> int option) \<Rightarrow> 'a list \<Rightarrow> py_value \<Rightarrow> int \<Rightarrow> error + 'a page" where
  "paginate_results int_of_text items page_number items_per_page =
     (let paginator = \<lparr>object_list = items, per_page = items_per_page\<rparr>
      in case page int_of_text paginator page_number of
           Inr page_obj \<Rightarrow> Inr page_obj
         | Inl PageNotAnInteger \<Rightarrow> page int_of_text paginator (PyInt 1)
         | Inl EmptyPage \<Rightarrow>
             (case num_pages paginator of
                Inl e \<Rightarrow> Inl e
              | Inr np \<Rightarrow> page int_of_text paginator (PyInt np))
         | Inl e \<Rightarrow> Inl e)"

definition ITEMS_PER_PAGE :: int where
  "ITEMS_PER_PAGE = 15"

text \<open>The page \<open>popular\<close> renders: the sorted merged list, paginated.\<close>

definition popular_page ::
  "(string \<Rightarrow> int option) \<Rightarrow> string \<Rightarrow> string list \<Rightarrow> content_row list
     \<Rightarrow> content_row list \<Rightarrow> py_value \<Rightarrow> error + content_dict page" where
  "popular_page int_of_text media_url watchlist_ids movies_qs tv_shows_qs page_number =
     paginate_results int_of_text
       (all_content_dicts media_url watchlist_ids movies_qs tv_shows_qs)
       page_number ITEMS_PER_PAGE"

section \<open>Achievement badges (\<open>profile_view\<close> of views.py)\<close>

text \<open>
  \<open>WatchedMovie\<close> rows: the user, the external id and media type of the title, the
  optional runtime in minutes and the optional review text. The media type is the
  text of the column.
\<close>

record watched_movie =
  wm_user :: nat
  wm_media_id :: string
  wm_media_type :: string
  wm_runtime :: "int option"
  wm_review :: "string option"

text \<open>\<open>Badge\<close> rows (the fields the evaluator reads) and \<open>UserBadge\<close> rows.\<close>

record badge =
  b_id :: nat
  b_name :: string
  requirement_count :: int
  requirement_type :: string

record user_badge =
  ub_user :: nat
  ub_badge :: nat

text \<open>The counters of \<open>profile_view\<close>, each over the watched rows of the user.\<close>

definition watched_items :: "nat \<Rightarrow> watched_movie list \<Rightarrow> watched_movie list" where
  "watched_items user watched = filter (\<lambda>w. wm_user w = user) watched"

definition watched_movie_count :: "nat \<Rightarrow> watched_movie list \<Rightarrow> int" where
  "watched_movie_count user watched =
     int (length (filter (\<lambda>w. wm_media_type w = ''movie'') (watched_items user watched)))"

definition watched_tv_count :: "nat \<Rightarrow> watched_movie list \<Rightarrow> int" where
  "watched_tv_count user watched =
     int (length (filter (\<lambda>w. wm_media_type w = ''tv'') (watched_items user watched)))"

text \<open>
  \<open>total_watch_minutes\<close>: the sum of the runtimes that are not NULL (0 when there is
  none), plus 120 minutes for every movie and 400 minutes for every TV show among
  the rows whose runtime is NULL.
\<close>

definition total_watch_minutes :: "nat \<Rightarrow> watched_movie list \<Rightarrow> int" where
  "total_watch_minutes user watched =
     (let items = watched_items user watched;
          total = sum_list (List.map_filter wm_runtime items);
          items_without_runtime = filter (\<lambda>w. wm_runtime w = None) items;
          movies_without_runtime =
            int (length (filter (\<lambda>w. wm_media_type w = ''movie'') items_without_runtime));
          tv_without_runtime =
            int (length (filter (\<lambda>w. wm_media_type w = ''tv'') items_without_runtime));
          estimated_minutes = movies_without_runtime * 120 + tv_without_runtime * 400
      in total + estimated_minutes)"

text \<open>\<open>total_watch_hours = total_watch_minutes // 60\<close>: floor division.\<close>

definition total_watch_hours :: "nat \<Rightarrow> watched_movie list \<Rightarrow> int" where
  "total_watch_hours user watched = total_watch_minutes user watched div 60"

definition reviews_written :: "nat \<Rightarrow> watched_movie list \<Rightarrow> int" where
  "reviews_written user watched =
     int (length (filter (\<lambda>w. wm_review w \<noteq> None \<and> wm_review w \<noteq> Some [])
                    (watched_items user watched)))"

text \<open>
  \<open>UserBadge.objects.get_or_create(user=..., badge=...)\<close>: a row for the pair is
  created unless one exists. The table is unique on (user, badge), so the lookup
  never finds two rows.
\<close>

definition get_or_create_user_badge :: "nat \<Rightarrow> nat \<Rightarrow> user_badge list \<Rightarrow> user_badge list" where
  "get_or_create_user_badge user b rows =
     (if \<exists>r \<in> set rows. ub_user r = user \<and> ub_badge r = b then rows
      else rows @ [\<lparr>ub_user = user, ub_badge = b\<rparr>])"

text \<open>
  \<open>Badge.objects.filter(requirement_type=...).order_by('requirement_count')\<close>.
\<close>

definition badges_of_type :: "string \<Rightarrow> badge list \<Rightarrow> badge list" where
  "badges_of_type t badges =
     sort_key requirement_count (filter (\<lambda>b. requirement_type b = t) badges)"

text \<open>One award loop: every badge of the kind whose threshold the counter reaches.\<close>

fun award_loop :: "nat \<Rightarrow> int \<Rightarrow> badge list \<Rightarrow> user_badge list \<Rightarrow> user_badge list" where
  "award_loop user counter [] rows = rows"
| "award_loop user counter (b # bs) rows =
     (if counter \<ge> requirement_count b
      then award_loop user counter bs (get_or_create_user_badge user (b_id b) rows)
      else award_loop user counter bs rows)"

text \<open>
  The badge evaluator, from its four counters: the four loops of \<open>profile_view\<close>
  in their order.
\<close>

definition check_badges ::
  "nat \<Rightarrow> int \<Rightarrow> int \<Rightarrow> int \<Rightarrow> int \<Rightarrow> badge list \<Rightarrow> user_badge list \<Rightarrow> user_badge list" where
  "check_badges user movie_count tv_count reviews hours badges rows =
     award_loop user hours (badges_of_type ''watch_hours'' badges)
       (award_loop user reviews (badges_of_type ''reviews_written'' badges)
         (award_loop user tv_count (badges_of_type ''tv_shows_watched'' badges)
           (award_loop user movie_count (badges_of_type ''movies_watched'' badges) rows)))"

text \<open>The evaluator as \<open>profile_view\<close> runs it, with the counters of the user.\<close>

definition profile_view_badges ::
  "nat \<Rightarrow> watched_movie list \<Rightarrow> badge list \<Rightarrow> user_badge list \<Rightarrow> user_badge list" where
  "profile_view_badges user watched badges rows =
     check_badges user (watched_movie_count user watched) (watched_tv_count user watched)
       (reviews_written user watched) (total_watch_hours user watched) badges rows"

text \<open>
  The watch time as the specification words it, entry by entry: an entry counts
  for its stored runtime, and an entry without one for the estimate of its media
  type, 120 minutes for a movie and 400 minutes for a TV show.
\<close>

definition entry_minutes :: "watched_movie \<Rightarrow> int" where
  "entry_minutes w =
     (case wm_runtime w of
        Some r \<Rightarrow> r
      | None \<Rightarrow> if wm_media_type w = ''movie'' then 120
                else if wm_media_type w = ''tv'' then 400 else 0)"

section \<open>Friend requests (\<open>User\<close> of models.py)\<close>

datatype request_status = Pending | Accepted | Rejected

text \<open>
  \<open>FriendRequest\<close> rows with their primary key, and the two tables the methods
  touch: the user ids and the friend requests.
\<close>

record friend_request =
  fr_id :: nat
  from_user :: nat
  to_user :: nat
  status :: request_status

record social_db =
  users :: "nat list"
  friend_requests :: "friend_request list"

definition between :: "nat \<Rightarrow> nat \<Rightarrow> friend_request \<Rightarrow> bool" where
  "between a b r = ((from_user r = a \<and> to_user r = b) \<or> (from_user r = b \<and> to_user r = a))"

text \<open>
  \<open>send_friend_request\<close>: refused for oneself and when a row exists between the two
  users in either direction; otherwise a pending row is created under a fresh key.
\<close>

definition send_friend_request :: "nat \<Rightarrow> nat \<Rightarrow> social_db \<Rightarrow> bool \<times> social_db" where
  "send_friend_request self to db =
     (if to = self then (False, db)
      else if filter (between self to) (friend_requests db) \<noteq> [] then (False, db)
      else (True, db\<lparr>friend_requests := friend_requests db @
              [\<lparr>fr_id = Suc (fold max (map fr_id (friend_requests db)) 0),
                from_user = self, to_user = to, status = Pending\<rparr>]\<rparr>))"

text \<open>
  \<open>accept_friend_request\<close>: \<open>objects.get\<close> finds the pending row from the sender;
  no row is \<open>DoesNotExist\<close>, which is caught and answered with \<open>False\<close>; several
  rows raise \<open>MultipleObjectsReturned\<close>, which is not caught. \<open>save\<close> writes the
  row back under its primary key.
\<close>

definition save_request :: "friend_request \<Rightarrow> friend_request list \<Rightarrow> friend_request list" where
  "save_request req rows = map (\<lambda>r. if fr_id r = fr_id req then req else r) rows"

definition accept_friend_request :: "nat \<Rightarrow> nat \<Rightarrow> social_db \<Rightarrow> error + bool \<times> social_db" where
  "accept_friend_request self sender db =
     (case filter (\<lambda>r. from_user r = sender \<and> to_user r = self \<and> status r = Pending)
             (friend_requests db) of
        [] \<Rightarrow> Inr (False, db)
      | [request] \<Rightarrow>
          Inr (True, db\<lparr>friend_requests :=
                 save_request (request\<lparr>status := Accepted\<rparr>) (friend_requests db)\<rparr>)
      | _ \<Rightarrow> Inl MultipleObjectsReturned)"

text \<open>
  \<open>get_friends\<close>: the users whose id is the other end of an accepted row sent or
  received by this user.
\<close>

definition get_friends :: "nat \<Rightarrow> social_db \<Rightarrow> nat list" where
  "get_friends self db =
     (let accepted_sent = map to_user
            (filter (\<lambda>r. from_user r = self \<and> status r = Accepted) (friend_requests db));
          accepted_received = map from_user
            (filter (\<lambda>r. to_user r = self \<and> status r = Accepted) (friend_requests db));
          friend_ids = accepted_sent @ accepted_received
      in filter (\<lambda>u. u \<in> set friend_ids) (users db))"

section \<open>The client of the external content API (\<open>tmdb_client.py\<close>)\<close>

subsection \<open>Responses\<close>

text \<open>
  An item of a result list, with the keys the client and the placeholder item use.
  \<open>None\<close> stands for a missing key or a JSON null.
\<close>

record result_item =
  ri_id :: "int option"
  ri_title :: "string option"
  ri_poster_path :: "string option"
  ri_media_type :: "string option"
  ri_overview :: "string option"
  ri_popularity :: "real option"
  ri_rating :: "real option"
  ri_vote_count :: "int option"

text \<open>A response in the shape of a result list; \<open>{}\<close> is \<open>empty_response\<close>.\<close>

record response =
  rs_page :: "int option"
  rs_total_results :: "int option"
  rs_total_pages :: "int option"
  rs_results :: "result_item list option"

definition empty_response :: response where
  "empty_response =
     \<lparr>rs_page = None, rs_total_results = None, rs_total_pages = None, rs_results = None\<rparr>"

record collection =
  co_id :: "int option"
  co_name :: "string option"

record keyword =
  kw_id :: "int option"
  kw_name :: "string option"

text \<open>
  What \<open>_make_request\<close> answers on each endpoint the searches use: an error when the
  request fails, or the parsed body. The cache in front of the requests returns the
  body stored for the same endpoint and parameters, so within one search the
  answer is a function of the endpoint and its parameters.
  \<^item> \<open>search/collection\<close> and \<open>search/keyword\<close>: the list under \<open>results\<close>, if any;
  \<^item> \<open>collection/{id}\<close>: the list under \<open>parts\<close>, if any;
  \<^item> \<open>discover/movie\<close> with a keyword id, and \<open>search/{type}\<close> with the query and
    page: a result list.
\<close>

record upstream =
  search_collection :: "string \<Rightarrow> error + collection list option"
  collection_details :: "int \<Rightarrow> error + result_item list option"
  search_keyword :: "string \<Rightarrow> error + keyword list option"
  discover_movie :: "int \<Rightarrow> error + response"
  search_title :: "string \<Rightarrow> string \<Rightarrow> int \<Rightarrow> error + response"

subsection \<open>Text helpers\<close>

text \<open>\<open>str.lower\<close> on ASCII letters, and the substring test \<open>sub in s\<close>.\<close>

definition lower_char :: "char \<Rightarrow> char" where
  "lower_char c =
     (case map_of (zip ''ABCDEFGHIJKLMNOPQRSTUVWXYZ'' ''abcdefghijklmnopqrstuvwxyz'') c of
        Some d \<Rightarrow> d | None \<Rightarrow> c)"

definition lower :: "string \<Rightarrow> string" where
  "lower s = map lower_char s"

fun str_contains :: "string \<Rightarrow> string \<Rightarrow> bool" where
  "str_contains sub [] = (sub = [])"
| "str_contains sub (c # cs) = (prefix sub (c # cs) \<or> str_contains sub cs)"

subsection \<open>Collection search\<close>

text \<open>\<open>_transform_collection_details\<close>: the parts of a collection as a result list.\<close>

definition transform_collection_details :: "result_item list option \<Rightarrow> response" where
  "transform_collection_details parts =
     (let movies = (case parts of Some ms \<Rightarrow> ms | None \<Rightarrow> [])
      in \<lparr>rs_page = Some 1, rs_total_results = Some (int (length movies)),
          rs_total_pages = Some 1, rs_results = Some movies\<rparr>)"

text \<open>
  \<open>get_collection_movies\<close>: no collection found gives \<open>{}\<close>; otherwise the first
  collection whose name contains the query, case-insensitively, or else the first
  collection, and the details of that collection. A chosen collection without an
  id is the \<open>KeyError\<close> of \<open>chosen_collection["id"]\<close>.
\<close>

definition get_collection_movies :: "upstream \<Rightarrow> string \<Rightarrow> error + response" where
  "get_collection_movies up query =
     (case search_collection up query of
        Inl e \<Rightarrow> Inl e
      | Inr None \<Rightarrow> Inr empty_response
      | Inr (Some []) \<Rightarrow> Inr empty_response
      | Inr (Some (first # rest)) \<Rightarrow>
          (let matching_collections =
                 filter (\<lambda>coll. str_contains (lower query)
                           (lower (case co_name coll of Some n \<Rightarrow> n | None \<Rightarrow> [])))
                   (first # rest);
               chosen_collection =
                 (case matching_collections of m # ms \<Rightarrow> m | [] \<Rightarrow> first)
           in (case co_id chosen_collection of
                 None \<Rightarrow> Inl KeyError
               | Some collection_id \<Rightarrow>
                   (case collection_details up collection_id of
                      Inl e \<Rightarrow> Inl e
                    | Inr parts \<Rightarrow> Inr (transform_collection_details parts)))))"

subsection \<open>Keyword search\<close>

text \<open>
  The loop of \<open>keyword_search\<close>: for each keyword in turn the variable \<open>results\<close> is
  assigned the discover response for that keyword, replacing what it held. The
  variable is unbound (\<open>None\<close>) before the first round.
\<close>

fun discover_loop :: "upstream \<Rightarrow> response option \<Rightarrow> keyword list \<Rightarrow> error + response option" where
  "discover_loop up results [] = Inr results"
| "discover_loop up results (keyword # keywords) =
     (case kw_id keyword of
        None \<Rightarrow> Inl KeyError
      | Some keyword_id \<Rightarrow>
          (case discover_movie up keyword_id of
             Inl e \<Rightarrow> Inl e
           | Inr r \<Rightarrow> discover_loop up (Some r) keywords))"

definition keyword_search :: "upstream \<Rightarrow> string \<Rightarrow> error + response" where
  "keyword_search up query =
     (case search_keyword up query of
        Inl e \<Rightarrow> Inl e
      | Inr None \<Rightarrow> Inr empty_response
      | Inr (Some []) \<Rightarrow> Inr empty_response
      | Inr (Some (k # ks)) \<Rightarrow>
          (let top_keywords = take 3 (k # ks)
           in case discover_loop up None top_keywords of
                Inl e \<Rightarrow> Inl e
              | Inr None \<Rightarrow> Inl UnboundLocalError
              | Inr (Some results) \<Rightarrow> Inr results))"

subsection \<open>Multi search\<close>

record search_result =
  sr_query :: string
  sr_results :: "result_item list"

text \<open>
  \<open>results.extend(...)\<close> under its guard: the result list of a sub-search is appended
  when the response has a non-empty one.
\<close>

definition extend_results :: "result_item list \<Rightarrow> response \<Rightarrow> result_item list" where
  "extend_results acc r =
     (case rs_results r of
        Some (x # xs) \<Rightarrow> acc @ (x # xs)
      | _ \<Rightarrow> acc)"

text \<open>
  The de-duplication loop: an item is kept when its id is truthy (present and not
  0) and not among the ids seen so far.
\<close>

fun remove_duplicates :: "int set \<Rightarrow> result_item list \<Rightarrow> result_item list \<Rightarrow> result_item list" where
  "remove_duplicates seen_ids unique_results [] = unique_results"
| "remove_duplicates seen_ids unique_results (item # items) =
     (case ri_id item of
        None \<Rightarrow> remove_duplicates seen_ids unique_results items
      | Some item_id \<Rightarrow>
          if item_id \<noteq> 0 \<and> item_id \<notin> seen_ids
          then remove_duplicates (insert item_id seen_ids) (unique_results @ [item]) items
          else remove_duplicates seen_ids unique_results items)"

definition no_results_item :: result_item where
  "no_results_item =
     \<lparr>ri_id = Some 0, ri_title = Some ''No results found'', ri_poster_path = None,
      ri_media_type = Some ''movie'', ri_overview = Some ''No description available.'',
      ri_popularity = Some 0, ri_rating = Some 0, ri_vote_count = Some 0\<rparr>"

text \<open>
  \<open>search\<close>: the three sub-searches in their order, an error of any of them reaching
  the caller; then the de-duplication and the placeholder.
\<close>

definition search :: "upstream \<Rightarrow> string \<Rightarrow> string \<Rightarrow> int \<Rightarrow> error + search_result" where
  "search up query search_type page_no =
     (if search_type \<notin> set [''movie'', ''tv'', ''multi''] then Inl ValueError
      else case get_collection_movies up query of
        Inl e \<Rightarrow> Inl e
      | Inr collection_result \<Rightarrow>
     (case keyword_search up query of
        Inl e \<Rightarrow> Inl e
      | Inr keyword_result \<Rightarrow>
     (case search_title up search_type query page_no of
        Inl e \<Rightarrow> Inl e
      | Inr title_search \<Rightarrow>
          let aggregated =
                extend_results
                  (extend_results (extend_results [] collection_result) keyword_result)
                  title_search;
              unique_results = remove_duplicates {} [] aggregated
          in Inr \<lparr>sr_query = query,
                  sr_results = (if unique_results = [] then [no_results_item]
                                else unique_results)\<rparr>)))"

text \<open>
  De-duplication as the specification words it: every distinct external id once,
  in first-seen order. An item is kept when no earlier item carries its id.
\<close>

fun first_seen :: "int option list \<Rightarrow> result_item list \<Rightarrow> result_item list" where
  "first_seen seen [] = []"
| "first_seen seen (item # items) =
     (if ri_id item \<in> set seen then first_seen seen items
      else item # first_seen (ri_id item # seen) items)"

text \<open>The result list of a response, empty when the key is missing.\<close>

definition results_of :: "response \<Rightarrow> result_item list" where
  "results_of r = (case rs_results r of Some xs \<Rightarrow> xs | None \<Rightarrow> [])"

definition truthy_id :: "result_item \<Rightarrow> bool" where
  "truthy_id item = (case ri_id item of Some i \<Rightarrow> i \<noteq> 0 | None \<Rightarrow> False)"

section \<open>Provider refresh (the management command \<open>update_watch_providers\<close>)\<close>

subsection \<open>Tables and upstream data\<close>

text \<open>
  A \<open>MovieProvider\<close> or \<open>TVShowProvider\<close> row: the content item, the provider (by
  its external id, which is unique in \<open>StreamingProvider\<close>), the region and the
  offer type. The tables are unique on these four columns together.
\<close>

record availability_row =
  ar_item :: int
  ar_provider :: int
  ar_region :: string
  ar_type :: offer_type

text \<open>
  A provider entry of the upstream availability response; \<open>None\<close> is a missing key.
  An entry of a region holds the lists under \<open>flatrate\<close>, \<open>rent\<close> and \<open>buy\<close>, each
  empty when the key is missing. The response is the list of its (region, entry)
  pairs in the order of the response.
\<close>

record provider_json =
  pj_provider_id :: "int option"
  pj_provider_name :: "string option"
  pj_logo_path :: "string option"
  pj_display_priority :: "int option"

record region_data =
  rd_flatrate :: "provider_json list"
  rd_rent :: "provider_json list"
  rd_buy :: "provider_json list"

type_synonym providers_data = "(string \<times> region_data) list"

text \<open>
  What one per-item update works on: the provider table, the availability table of
  the media type, and the flag of the database connection that marks the running
  transaction for rollback.
\<close>

record table_state =
  ts_providers :: "streaming_provider list"
  ts_rows :: "availability_row list"
  ts_needs_rollback :: bool

text \<open>A call either returns a value or raises; the state it leaves is kept with both.\<close>

datatype 'a outcome = Returned 'a | Raised error

definition ALLOWED_REGIONS :: "string list" where
  "ALLOWED_REGIONS = [''NO'', ''US'', ''GB'', ''DE'', ''FR'', ''SE'', ''DK'']"

subsection \<open>One item\<close>

text \<open>
  \<open>get_or_create_provider\<close>: \<open>provider_data['provider_id']\<close> and
  \<open>provider_data['provider_name']\<close> raise \<open>KeyError\<close> on a missing key, before the
  table is looked at; the logo path and the display priority have defaults. The
  provider with that external id is returned, created first if there is none.
\<close>

definition get_or_create_provider ::
  "provider_json \<Rightarrow> table_state \<Rightarrow> streaming_provider outcome \<times> table_state" where
  "get_or_create_provider provider_data s =
     (case pj_provider_id provider_data of
        None \<Rightarrow> (Raised KeyError, s)
      | Some pid \<Rightarrow>
          (case pj_provider_name provider_data of
             None \<Rightarrow> (Raised KeyError, s)
           | Some name \<Rightarrow>
               (case find (\<lambda>p. sp_tmdb_id p = pid) (ts_providers s) of
                  Some provider \<Rightarrow> (Returned provider, s)
                | None \<Rightarrow>
                    let provider =
                          \<lparr>sp_name = name, sp_tmdb_id = pid,
                           sp_logo_path = (case pj_logo_path provider_data of
                                             Some l \<Rightarrow> l | None \<Rightarrow> []),
                           sp_display_priority = (case pj_display_priority provider_data of
                                                    Some d \<Rightarrow> d | None \<Rightarrow> 0)\<rparr>
                    in (Returned provider,
                        s\<lparr>ts_providers := ts_providers s @ [provider]\<rparr>))))"

text \<open>
  \<open>objects.create\<close> of an availability row. A row that exists already violates the
  uniqueness of the table: the database refuses it with \<open>IntegrityError\<close>, and
  saving a model inside a transaction marks the transaction for rollback on a
  database error.
\<close>

definition create_row :: "availability_row \<Rightarrow> table_state \<Rightarrow> unit outcome \<times> table_state" where
  "create_row row s =
     (if row \<in> set (ts_rows s) then (Raised IntegrityError, s\<lparr>ts_needs_rollback := True\<rparr>)
      else (Returned (), s\<lparr>ts_rows := ts_rows s @ [row]\<rparr>))"

text \<open>The body of each of the three inner loops.\<close>

definition create_offer ::
  "int \<Rightarrow> string \<Rightarrow> offer_type \<Rightarrow> provider_json \<Rightarrow> table_state \<Rightarrow> unit outcome \<times> table_state" where
  "create_offer item region t provider_data s =
     (case get_or_create_provider provider_data s of
        (Raised e, s1) \<Rightarrow> (Raised e, s1)
      | (Returned provider, s1) \<Rightarrow>
          create_row \<lparr>ar_item = item, ar_provider = sp_tmdb_id provider,
                      ar_region = region, ar_type = t\<rparr> s1)"

text \<open>
  Statements in sequence and a \<open>for\<close> loop: an exception ends the sequence and the
  loop, and what was written before it stays written.
\<close>

definition then_do ::
  "('s \<Rightarrow> unit outcome \<times> 's) \<Rightarrow> ('s \<Rightarrow> unit outcome \<times> 's) \<Rightarrow> 's \<Rightarrow> unit outcome \<times> 's" where
  "then_do f g s =
     (case f s of
        (Raised e, s1) \<Rightarrow> (Raised e, s1)
      | (Returned u, s1) \<Rightarrow> g s1)"

fun for_each :: "('a \<Rightarrow> 's \<Rightarrow> unit outcome \<times> 's) \<Rightarrow> 'a list \<Rightarrow> 's \<Rightarrow> unit outcome \<times> 's" where
  "for_each body [] s = (Returned (), s)"
| "for_each body (x # xs) s = then_do (body x) (for_each body xs) s"

text \<open>
  The body of the loop over the regions: a region outside the allow-list is
  skipped; otherwise the flatrate, rent and buy entries are written in turn.
\<close>

definition update_region :: "int \<Rightarrow> string \<times> region_data \<Rightarrow> table_state \<Rightarrow> unit outcome \<times> table_state" where
  "update_region item entry s =
     (case entry of (region, region_data) \<Rightarrow>
        if region \<notin> set ALLOWED_REGIONS then (Returned (), s)
        else then_do (for_each (create_offer item region Flatrate) (rd_flatrate region_data))
               (then_do (for_each (create_offer item region Rent) (rd_rent region_data))
                  (for_each (create_offer item region Buy) (rd_buy region_data))) s)"

text \<open>\<open>objects.filter(movie=movie).delete()\<close>: every row of the item goes.\<close>

definition delete_rows :: "int \<Rightarrow> table_state \<Rightarrow> table_state" where
  "delete_rows item s = s\<lparr>ts_rows := filter (\<lambda>r. ar_item r \<noteq> item) (ts_rows s)\<rparr>"

text \<open>
  The \<open>try\<close> block of \<open>update_movie_providers\<close> and \<open>update_tv_providers\<close>, which are
  the same text on the two tables: delete the rows of the item, then write the rows
  of the response, region by region.
\<close>

definition update_providers_body ::
  "int \<Rightarrow> providers_data \<Rightarrow> table_state \<Rightarrow> unit outcome \<times> table_state" where
  "update_providers_body item providers_data s =
     for_each (update_region item) providers_data (delete_rows item s)"

text \<open>
  The function body: the \<open>try\<close> block returns \<open>True\<close>; \<open>except Exception\<close> catches
  whatever it raises, writes a message and returns \<open>False\<close>. The function itself
  never raises.
\<close>

definition update_providers_try ::
  "int \<Rightarrow> providers_data \<Rightarrow> table_state \<Rightarrow> bool outcome \<times> table_state" where
  "update_providers_try item providers_data s =
     (case update_providers_body item providers_data s of
        (Returned u, s1) \<Rightarrow> (Returned True, s1)
      | (Raised e, s1) \<Rightarrow> (Returned False, s1))"

text \<open>
  The decorator \<open>transaction.atomic\<close> around a function, outermost: the rollback
  flag is cleared on entry; when the function returns and the transaction is not
  marked for rollback, its writes are committed; when it raises, or the
  transaction is marked, they are rolled back and the state is the one on entry.
  This follows the documented behaviour of the framework, which is not part of the
  repository.
\<close>

definition atomic ::
  "(table_state \<Rightarrow> 'a outcome \<times> table_state) \<Rightarrow> table_state \<Rightarrow> 'a outcome \<times> table_state" where
  "atomic f s =
     (case f (s\<lparr>ts_needs_rollback := False\<rparr>) of
        (Returned v, s1) \<Rightarrow>
          if ts_needs_rollback s1 then (Returned v, s\<lparr>ts_needs_rollback := False\<rparr>)
          else (Returned v, s1)
      | (Raised e, s1) \<Rightarrow> (Raised e, s\<lparr>ts_needs_rollback := False\<rparr>))"

definition update_item_providers ::
  "int \<Rightarrow> providers_data \<Rightarrow> table_state \<Rightarrow> bool outcome \<times> table_state" where
  "update_item_providers item providers_data = atomic (update_providers_try item providers_data)"

subsection \<open>The database and the batch\<close>

record database =
  db_streaming_providers :: "streaming_provider list"
  db_movie_providers :: "availability_row list"
  db_tvshow_providers :: "availability_row list"

definition update_movie_providers :: "int \<Rightarrow> providers_data \<Rightarrow> database \<Rightarrow> bool outcome \<times> database" where
  "update_movie_providers movie providers_data db =
     (case update_item_providers movie providers_data
             \<lparr>ts_providers = db_streaming_providers db, ts_rows = db_movie_providers db,
              ts_needs_rollback = False\<rparr> of
        (r, s) \<Rightarrow> (r, db\<lparr>db_streaming_providers := ts_providers s,
                         db_movie_providers := ts_rows s\<rparr>))"

definition update_tv_providers :: "int \<Rightarrow> providers_data \<Rightarrow> database \<Rightarrow> bool outcome \<times> database" where
  "update_tv_providers show providers_data db =
     (case update_item_providers show providers_data
             \<lparr>ts_providers = db_streaming_providers db, ts_rows = db_tvshow_providers db,
              ts_needs_rollback = False\<rparr> of
        (r, s) \<Rightarrow> (r, db\<lparr>db_streaming_providers := ts_providers s,
                         db_tvshow_providers := ts_rows s\<rparr>))"

text \<open>
  The movie loop of \<open>handle\<close>: for each movie the fetched response (\<open>{}\<close> when the
  request failed), then the update unless the response is empty; \<open>updated\<close> and
  \<open>skipped\<close> are counted.
\<close>

fun handle_movies ::
  "(int \<Rightarrow> providers_data) \<Rightarrow> int list \<Rightarrow> database \<times> nat \<times> nat \<Rightarrow> database \<times> nat \<times> nat" where
  "handle_movies fetch_watch_providers [] acc = acc"
| "handle_movies fetch_watch_providers (movie # movies) (db, updated, skipped) =
     (let providers_data = fetch_watch_providers movie
      in if providers_data = [] then
           handle_movies fetch_watch_providers movies (db, updated, Suc skipped)
         else
           (case update_movie_providers movie providers_data db of
              (Returned True, db1) \<Rightarrow>
                handle_movies fetch_watch_providers movies (db1, Suc updated, skipped)
            | (r, db1) \<Rightarrow>
                handle_movies fetch_watch_providers movies (db1, updated, Suc skipped)))"

subsection \<open>Steps that can be replayed\<close>

text \<open>
  The property of a step of the update of an item on which the idempotence of the
  refresh rests. Whatever the step returns or raises from a state,
  \<^item> it loses no provider, and only appends rows of the item to the availability
    table, keeping the table free of duplicates;
  \<^item> when it returns, it has not marked the transaction, and run again from the same
    state with any provider table that knows at least the providers of its final
    state, it returns with the same rows and leaves that provider table as it is;
  \<^item> when it raises, run again from the same state with the provider table of its
    final state, it raises the same error in the same final state.
\<close>

definition replayable :: "int \<Rightarrow> (table_state \<Rightarrow> unit outcome \<times> table_state) \<Rightarrow> bool" where
  "replayable item f \<longleftrightarrow>
     (\<forall>s r s'. f s = (r, s') \<longrightarrow>
        sp_tmdb_id ` set (ts_providers s) \<subseteq> sp_tmdb_id ` set (ts_providers s')
      \<and> (\<exists>new. ts_rows s' = ts_rows s @ new \<and> (\<forall>x \<in> set new. ar_item x = item))
      \<and> (distinct (ts_rows s) \<longrightarrow> distinct (ts_rows s'))
      \<and> (case r of
            Returned u \<Rightarrow>
              ts_needs_rollback s' = ts_needs_rollback s
            \<and> (\<forall>P. sp_tmdb_id ` set (ts_providers s') \<subseteq> sp_tmdb_id ` set P \<longrightarrow>
                   f (s\<lparr>ts_providers := P\<rparr>) = (Returned (), s'\<lparr>ts_providers := P\<rparr>))
          | Raised e \<Rightarrow> f (s\<lparr>ts_providers := ts_providers s'\<rparr>) = (Raised e, s')))"

subsection \<open>The rows of a response\<close>

text \<open>
  The availability rows that the specification has a refresh recreate for an item:
  for each region of the allow-list, in the order of the response, one row for each
  flatrate entry, then for each rent entry, then for each buy entry.
\<close>

definition offer_rows :: "int \<Rightarrow> string \<Rightarrow> offer_type \<Rightarrow> provider_json list \<Rightarrow> availability_row list" where
  "offer_rows item region t entries =
     concat (map (\<lambda>provider_data.
                    case pj_provider_id provider_data of
                      Some pid \<Rightarrow> [\<lparr>ar_item = item, ar_provider = pid,
                                    ar_region = region, ar_type = t\<rparr>]
                    | None \<Rightarrow> []) entries)"

definition region_rows :: "int \<Rightarrow> string \<times> region_data \<Rightarrow> availability_row list" where
  "region_rows item entry =
     (case entry of (region, region_data) \<Rightarrow>
        if region \<in> set ALLOWED_REGIONS
        then offer_rows item region Flatrate (rd_flatrate region_data)
           @ offer_rows item region Rent (rd_rent region_data)
           @ offer_rows item region Buy (rd_buy region_data)
        else [])"

definition response_rows :: "int \<Rightarrow> providers_data \<Rightarrow> availability_row list" where
  "response_rows item providers_data = concat (map (region_rows item) providers_data)"

section \<open>Example data\<close>

text \<open>Concrete rows and responses, used to run the definitions on.\<close>

definition example_row :: "int \<Rightarrow> real \<Rightarrow> real \<Rightarrow> content_row" where
  "example_row i p r =
     \<lparr>c_tmdb_id = i, c_title = ''t'', c_overview = None, c_poster_path = None,
      c_popularity = Some p, c_rating = Some r, c_vote_count = None,
      c_release_date = None, c_first_air_date = None, c_providers_list = []\<rparr>"

definition example_badge :: badge where
  "example_badge =
     \<lparr>b_id = 1, b_name = ''Movie Watcher'', requirement_count = 5,
      requirement_type = ''movies_watched''\<rparr>"

definition example_watched :: "watched_movie list" where
  "example_watched =
     [\<lparr>wm_user = 7, wm_media_id = ''603'', wm_media_type = ''movie'',
       wm_runtime = Some 136, wm_review = Some ''good''\<rparr>,
      \<lparr>wm_user = 7, wm_media_id = ''604'', wm_media_type = ''movie'',
       wm_runtime = None, wm_review = None\<rparr>,
      \<lparr>wm_user = 7, wm_media_id = ''1399'', wm_media_type = ''tv'',
       wm_runtime = None, wm_review = Some []\<rparr>,
      \<lparr>wm_user = 8, wm_media_id = ''603'', wm_media_type = ''movie'',
       wm_runtime = Some 136, wm_review = None\<rparr>]"

definition example_social_db :: social_db where
  "example_social_db =
     \<lparr>users = [1, 2, 3],
      friend_requests = [\<lparr>fr_id = 1, from_user = 3, to_user = 1, status = Accepted\<rparr>]\<rparr>"

definition example_item :: "int \<Rightarrow> string \<Rightarrow> result_item" where
  "example_item i t =
     \<lparr>ri_id = Some i, ri_title = Some t, ri_poster_path = None, ri_media_type = None,
      ri_overview = None, ri_popularity = None, ri_rating = None, ri_vote_count = None\<rparr>"

definition example_response :: "result_item list \<Rightarrow> response" where
  "example_response items =
     \<lparr>rs_page = Some 1, rs_total_results = Some (int (length items)),
      rs_total_pages = Some 1, rs_results = Some items\<rparr>"

text \<open>
  An upstream in which the sub-searches overlap: the collection holds the titles 1
  and 2, the keyword lookup finds the keywords 10, 20, 30 and 40, whose discover
  lists are the titles 110, 120, (2, 130) and 140, and the title search finds the
  titles 1 and 4.
\<close>

definition example_upstream :: upstream where
  "example_upstream =
     \<lparr>search_collection =
        (\<lambda>q. Inr (Some [\<lparr>co_id = Some 9, co_name = Some ''Other''\<rparr>,
                         \<lparr>co_id = Some 7, co_name = Some ''The Matrix Collection''\<rparr>])),
      collection_details =
        (\<lambda>i. if i = 7 then Inr (Some [example_item 1 ''Collection Movie'',
                                        example_item 2 ''Sequel''])
              else Inr None),
      search_keyword =
        (\<lambda>q. Inr (Some [\<lparr>kw_id = Some 10, kw_name = None\<rparr>, \<lparr>kw_id = Some 20, kw_name = None\<rparr>,
                         \<lparr>kw_id = Some 30, kw_name = None\<rparr>, \<lparr>kw_id = Some 40, kw_name = None\<rparr>])),
      discover_movie =
        (\<lambda>k. if k = 30 then Inr (example_response [example_item 2 ''Sequel'',
                                                     example_item 130 ''Keyword Movie''])
              else Inr (example_response [example_item (100 + k) ''Other Keyword Movie''])),
      search_title =
        (\<lambda>t q p. Inr (example_response [example_item 1 ''Collection Movie'',
                                          example_item 4 ''Matrix'']))\<rparr>"

text \<open>
  An upstream whose title search lists an item with the id 0 before the title 5,
  and which knows no collection and no keyword.
\<close>

definition zero_id_upstream :: upstream where
  "zero_id_upstream =
     \<lparr>search_collection = (\<lambda>q. Inr None),
      collection_details = (\<lambda>i. Inr None),
      search_keyword = (\<lambda>q. Inr None),
      discover_movie = (\<lambda>k. Inr empty_response),
      search_title =
        (\<lambda>t q p. Inr (example_response [example_item 0 ''Zero'', example_item 5 ''Five'']))\<rparr>"

definition example_provider_json :: "int \<Rightarrow> string \<Rightarrow> provider_json" where
  "example_provider_json i n =
     \<lparr>pj_provider_id = Some i, pj_provider_name = Some n, pj_logo_path = Some ''/logo.jpg'',
      pj_display_priority = Some 1\<rparr>"

definition example_provider :: "int \<Rightarrow> string \<Rightarrow> streaming_provider" where
  "example_provider i n =
     \<lparr>sp_name = n, sp_tmdb_id = i, sp_logo_path = ''/logo.jpg'', sp_display_priority = 1\<rparr>"

text \<open>
  A database in which movie 1 is available on provider 8 (flatrate) and provider 9
  (rent) in Norway, and movie 2 on provider 8 in the United States.
\<close>

definition example_database :: database where
  "example_database =
     \<lparr>db_streaming_providers = [example_provider 8 ''Netflix'', example_provider 9 ''Viaplay''],
      db_movie_providers =
        [\<lparr>ar_item = 1, ar_provider = 8, ar_region = ''NO'', ar_type = Flatrate\<rparr>,
         \<lparr>ar_item = 1, ar_provider = 9, ar_region = ''NO'', ar_type = Rent\<rparr>,
         \<lparr>ar_item = 2, ar_provider = 8, ar_region = ''US'', ar_type = Flatrate\<rparr>],
      db_tvshow_providers = []\<rparr>"

text \<open>
  A well-formed response: provider 8 and the new provider 337 as flatrate, provider
  9 to rent in Norway; an entry for a region outside the allow-list.
\<close>

definition example_providers_data :: providers_data where
  "example_providers_data =
     [(''NO'', \<lparr>rd_flatrate = [example_provider_json 8 ''Netflix'',
                                 example_provider_json 337 ''Disney Plus''],
               rd_rent = [example_provider_json 9 ''Viaplay''], rd_buy = []\<rparr>),
      (''JP'', \<lparr>rd_flatrate = [example_provider_json 8 ''Netflix''],
               rd_rent = [], rd_buy = []\<rparr>)]"

text \<open>
  A response whose second flatrate entry for Norway has no \<open>provider_id\<close> key.
\<close>

definition broken_providers_data :: providers_data where
  "broken_providers_data =
     [(''NO'', \<lparr>rd_flatrate = [example_provider_json 8 ''Netflix'',
                                 \<lparr>pj_provider_id = None, pj_provider_name = Some ''Mystery'',
                                  pj_logo_path = None, pj_display_priority = None\<rparr>],
               rd_rent = [example_provider_json 9 ''Viaplay''], rd_buy = []\<rparr>)]"

text \<open>A response that lists provider 8 twice as flatrate for Norway.\<close>

definition duplicate_providers_data :: providers_data where
  "duplicate_providers_data =
     [(''NO'', \<lparr>rd_flatrate = [example_provider_json 8 ''Netflix'',
                                 example_provider_json 8 ''Netflix''],
               rd_rent = [], rd_buy = []\<rparr>)]"

section \<open>Properties of the aggregation pipeline\<close>

lemma sort_reverse_mset: "mset (sort_reverse key xs) = mset xs"
  by (simp add: sort_reverse_def)

lemma sort_reverse_sorted: "sorted_wrt (\<lambda>a b. key b \<le> key a) (sort_reverse key xs)"
proof -
  have "sorted (map key (sort_key key (rev xs)))"
    by simp
  then have "sorted_wrt (\<lambda>a b. key a \<le> key b) (sort_key key (rev xs))"
    by (simp add: sorted_map)
  then show ?thesis
    by (simp add: sort_reverse_def sorted_wrt_rev)
qed

lemma popular_key_le:
  "popular_key b \<le> popular_key a \<longleftrightarrow>
     d_popularity b < d_popularity a \<or>
     (d_popularity a = d_popularity b \<and> d_rating b \<le> d_rating a)"
  by (auto simp: popular_key_def)

lemma sorted_desc_precedes:
  fixes key :: "'a \<Rightarrow> 'k::linorder"
  assumes "sorted_wrt (\<lambda>a b. key b \<le> key a) xs"
    and "i < length xs" "j < length xs" "key (xs ! j) < key (xs ! i)"
  shows "i < j"
proof (rule ccontr)
  assume "\<not> i < j"
  then consider "i = j" | "j < i" by linarith
  then show False
  proof cases
    case 1
    with assms(4) show False by simp
  next
    case 2
    with assms(1,2) have "key (xs ! i) \<le> key (xs ! j)"
      by (simp add: sorted_wrt_iff_nth_less)
    with assms(4) show False by simp
  qed
qed

text \<open>
  Claim C1. The list that \<open>popular\<close> builds before pagination holds exactly the
  processed movies and TV shows, and is sorted by (popularity, rating) in descending
  lexicographic order: of two records, the one at the earlier position has the higher
  popularity, or the same popularity and a rating at least as high. Hence a record
  with strictly higher popularity stands before one with lower popularity, and of
  two records with equal popularity the one with the strictly higher rating stands
  first.
\<close>

theorem all_content_dicts_sorted_desc:
  "mset (all_content_dicts media_url watchlist_ids movies_qs tv_shows_qs) =
     mset (map (\<lambda>item. process_content_item media_url item watchlist_ids MovieT) movies_qs @
           map (\<lambda>item. process_content_item media_url item watchlist_ids TvT) tv_shows_qs)
   \<and> sorted_wrt
        (\<lambda>a b. d_popularity b < d_popularity a \<or>
               (d_popularity a = d_popularity b \<and> d_rating b \<le> d_rating a))
        (all_content_dicts media_url watchlist_ids movies_qs tv_shows_qs)
   \<and> (\<forall>i j. i < length (all_content_dicts media_url watchlist_ids movies_qs tv_shows_qs) \<and>
            j < length (all_content_dicts media_url watchlist_ids movies_qs tv_shows_qs) \<and>
            (d_popularity (all_content_dicts media_url watchlist_ids movies_qs tv_shows_qs ! j)
               < d_popularity (all_content_dicts media_url watchlist_ids movies_qs tv_shows_qs ! i)
             \<or> (d_popularity (all_content_dicts media_url watchlist_ids movies_qs tv_shows_qs ! j)
                   = d_popularity (all_content_dicts media_url watchlist_ids movies_qs tv_shows_qs ! i)
                \<and> d_rating (all_content_dicts media_url watchlist_ids movies_qs tv_shows_qs ! j)
                   < d_rating (all_content_dicts media_url watchlist_ids movies_qs tv_shows_qs ! i)))
            \<longrightarrow> i < j)"
proof -
  let ?L = "all_content_dicts media_url watchlist_ids movies_qs tv_shows_qs"
  have perm: "mset ?L =
     mset (map (\<lambda>item. process_content_item media_url item watchlist_ids MovieT) movies_qs @
           map (\<lambda>item. process_content_item media_url item watchlist_ids TvT) tv_shows_qs)"
    unfolding all_content_dicts_def by (rule sort_reverse_mset)
  have srt: "sorted_wrt (\<lambda>a b. popular_key b \<le> popular_key a) ?L"
    unfolding all_content_dicts_def by (rule sort_reverse_sorted)
  have lex: "sorted_wrt
        (\<lambda>a b. d_popularity b < d_popularity a \<or>
               (d_popularity a = d_popularity b \<and> d_rating b \<le> d_rating a)) ?L"
    using srt by (simp add: popular_key_le)
  have prec: "i < j"
    if "i < length ?L" "j < length ?L"
      and "d_popularity (?L ! j) < d_popularity (?L ! i) \<or>
           (d_popularity (?L ! j) = d_popularity (?L ! i) \<and> d_rating (?L ! j) < d_rating (?L ! i))"
    for i j
  proof -
    from that(3) have "popular_key (?L ! j) < popular_key (?L ! i)"
      by (auto simp: popular_key_def)
    with srt that(1,2) show ?thesis
      by (rule sorted_desc_precedes [where key = popular_key])
  qed
  from perm lex prec show ?thesis
    by blast
qed


lemma example_all_content_dicts:
  "map (\<lambda>x. (d_id x, d_media_type x, d_popularity x, d_rating x))
     (all_content_dicts ''/media/'' [] [example_row 1 100 7]
        [example_row 2 50 9, example_row 3 100 6])
   = [(''1'', ''movie'', 100, 7), (''3'', ''tv'', 100, 6), (''2'', ''tv'', 50, 9)]"
  by (simp add: all_content_dicts_def sort_reverse_def example_row_def
      process_content_item_def popular_key_def str_int_def digit_char_def media_type_str_def)

text \<open>
  The example of the specification: a movie of popularity 100 and rating 7, a TV
  show of popularity 100 and rating 6 and a TV show of popularity 50 and rating 9
  come out in this order, whatever order the tables list them in.
\<close>

theorem all_content_dicts_sorted_desc_witness:
  "(0::nat) < length (all_content_dicts ''/media/'' [] [example_row 1 100 7]
        [example_row 2 50 9, example_row 3 100 6])
   \<and> (1::nat) < length (all_content_dicts ''/media/'' [] [example_row 1 100 7]
        [example_row 2 50 9, example_row 3 100 6])
   \<and> d_popularity (all_content_dicts ''/media/'' [] [example_row 1 100 7]
        [example_row 2 50 9, example_row 3 100 6] ! 1)
      = d_popularity (all_content_dicts ''/media/'' [] [example_row 1 100 7]
        [example_row 2 50 9, example_row 3 100 6] ! 0)
   \<and> d_rating (all_content_dicts ''/media/'' [] [example_row 1 100 7]
        [example_row 2 50 9, example_row 3 100 6] ! 1)
      < d_rating (all_content_dicts ''/media/'' [] [example_row 1 100 7]
        [example_row 2 50 9, example_row 3 100 6] ! 0)
   \<and> (0::nat) < 1
   \<and> map (\<lambda>x. (d_popularity x, d_rating x))
        (all_content_dicts ''/media/'' [] [example_row 1 100 7]
           [example_row 2 50 9, example_row 3 100 6])
      = [(100, 7), (100, 6), (50, 9)]"
proof -
  let ?L = "all_content_dicts ''/media/'' [] [example_row 1 100 7]
        [example_row 2 50 9, example_row 3 100 6]"
  have L: "map (\<lambda>x. (d_popularity x, d_rating x)) ?L = [(100, 7), (100, 6), (50, 9)]"
    by (simp add: all_content_dicts_def sort_reverse_def example_row_def
        process_content_item_def popular_key_def)
  have len: "length ?L = 3"
    using arg_cong [OF L, of length] by simp
  have "map (\<lambda>x. (d_popularity x, d_rating x)) ?L ! 0 = (d_popularity (?L ! 0), d_rating (?L ! 0))"
    using len by simp
  then have p0: "(d_popularity (?L ! 0), d_rating (?L ! 0)) = (100, 7)"
    by (simp only: L nth_Cons_0)
  have "map (\<lambda>x. (d_popularity x, d_rating x)) ?L ! 1 = (d_popularity (?L ! 1), d_rating (?L ! 1))"
    using len by simp
  then have p1: "(d_popularity (?L ! 1), d_rating (?L ! 1)) = (100, 6)"
    by (simp add: L)
  show ?thesis
    using all_content_dicts_sorted_desc [of "''/media/''" "[]" "[example_row 1 100 7]"
        "[example_row 2 50 9, example_row 3 100 6]"] L len p0 p1
    by simp
qed

section \<open>Properties of pagination\<close>

lemma num_pages_ceiling:
  assumes "0 < pp"
  shows "num_pages \<lparr>object_list = xs, per_page = pp\<rparr>
           = Inr \<lceil>of_int (max 1 (int (length xs))) / (of_int pp :: real)\<rceil>"
  using assms by (simp add: num_pages_def count_def Let_def ceiling_divide_eq_div)

lemma last_page_ge_1:
  assumes "0 < pp"
  shows "1 \<le> \<lceil>of_int (max 1 (int (length xs))) / (of_int pp :: real)\<rceil>"
proof -
  have "0 < of_int (max 1 (int (length xs))) / (of_int pp :: real)"
    using assms by (simp)
  then show ?thesis by linarith
qed

lemma py_slice_page:
  assumes "0 \<le> b" "0 < pp"
  shows "py_slice xs b (if b + pp \<ge> int (length xs) then int (length xs) else b + pp)
           = take (nat pp) (drop (nat b) xs)"
proof (cases "b + pp \<ge> int (length xs)")
  case True
  then have "length xs - nat b \<le> nat pp" using assms by linarith
  then show ?thesis
    using True assms by (auto simp: py_slice_def Let_def min_def max_def)
next
  case False
  have "nat (b + pp) - nat b = nat pp" using assms by linarith
  then show ?thesis
    using False assms by (auto simp: py_slice_def Let_def min_def max_def)
qed

lemma page_in_range:
  assumes "0 < pp" "py_int int_of_text v = Some n" "1 \<le> n"
    and "n \<le> \<lceil>of_int (max 1 (int (length xs))) / (of_int pp :: real)\<rceil>"
  shows "page int_of_text \<lparr>object_list = xs, per_page = pp\<rparr> v =
           Inr \<lparr>pg_object_list = take (nat pp) (drop (nat ((n - 1) * pp)) xs),
                pg_number = n, pg_paginator = \<lparr>object_list = xs, per_page = pp\<rparr>\<rparr>"
proof -
  have b: "0 \<le> (n - 1) * pp" using assms by simp
  have v: "validate_number int_of_text \<lparr>object_list = xs, per_page = pp\<rparr> v = Inr n"
    using assms by (simp add: validate_number_def num_pages_ceiling)
  have "page int_of_text \<lparr>object_list = xs, per_page = pp\<rparr> v =
          Inr \<lparr>pg_object_list = py_slice xs ((n - 1) * pp)
                   (if (n - 1) * pp + pp \<ge> int (length xs) then int (length xs)
                    else (n - 1) * pp + pp),
               pg_number = n, pg_paginator = \<lparr>object_list = xs, per_page = pp\<rparr>\<rparr>"
    by (simp add: page_def v Let_def count_def)
  then show ?thesis
    by (simp only: py_slice_page [OF b assms(1)])
qed

lemma page_not_integer:
  assumes "py_int int_of_text v = None"
  shows "page int_of_text p v = Inl PageNotAnInteger"
  using assms by (simp add: page_def validate_number_def)

lemma page_out_of_range:
  assumes "0 < pp" "py_int int_of_text v = Some n"
    and "n < 1 \<or> n > \<lceil>of_int (max 1 (int (length xs))) / (of_int pp :: real)\<rceil>"
  shows "page int_of_text \<lparr>object_list = xs, per_page = pp\<rparr> v = Inl EmptyPage"
  using assms
  by (auto simp add: page_def validate_number_def num_pages_ceiling)


lemma paginate_results_cases:
  assumes "0 < pp"
  shows "paginate_results int_of_text xs v pp =
     (let P = \<lparr>object_list = xs, per_page = pp\<rparr>;
          np = \<lceil>of_int (max 1 (int (length xs))) / (of_int pp :: real)\<rceil>;
          n = (case py_int int_of_text v of None \<Rightarrow> 1 | Some k \<Rightarrow> if k < 1 \<or> np < k then np else k)
      in Inr \<lparr>pg_object_list = take (nat pp) (drop (nat ((n - 1) * pp)) xs),
              pg_number = n, pg_paginator = P\<rparr>)"
proof -
  let ?P = "\<lparr>object_list = xs, per_page = pp\<rparr>"
  let ?np = "\<lceil>of_int (max 1 (int (length xs))) / (of_int pp :: real)\<rceil>"
  have np1: "1 \<le> ?np" by (rule last_page_ge_1 [OF assms])
  have first: "page int_of_text ?P (PyInt 1) =
      Inr \<lparr>pg_object_list = take (nat pp) (drop (nat ((1 - 1) * pp)) xs),
           pg_number = 1, pg_paginator = ?P\<rparr>"
    by (rule page_in_range [OF assms _ _ np1]) (simp_all add: py_int_def)
  have last: "page int_of_text ?P (PyInt ?np) =
      Inr \<lparr>pg_object_list = take (nat pp) (drop (nat ((?np - 1) * pp)) xs),
           pg_number = ?np, pg_paginator = ?P\<rparr>"
    by (rule page_in_range [OF assms _ np1]) (simp_all add: py_int_def)
  show ?thesis
  proof (cases "py_int int_of_text v")
    case None
    then show ?thesis
      using first by (simp add: paginate_results_def page_not_integer Let_def)
  next
    case (Some k)
    show ?thesis
    proof (cases "k < 1 \<or> ?np < k")
      case True
      with Some assms have "page int_of_text ?P v = Inl EmptyPage"
        by (intro page_out_of_range) auto
      then show ?thesis
        using True Some last
        by (simp add: paginate_results_def num_pages_ceiling [OF assms] Let_def)
    next
      case False
      with Some assms have "page int_of_text ?P v =
          Inr \<lparr>pg_object_list = take (nat pp) (drop (nat ((k - 1) * pp)) xs),
               pg_number = k, pg_paginator = ?P\<rparr>"
        by (intro page_in_range) auto
      then show ?thesis
        using False Some by (simp add: paginate_results_def Let_def)
    qed
  qed
qed

text \<open>
  Claim C3. For a non-empty item list and a positive page size (the pipeline passes
  15), \<open>paginate_results\<close> never raises, whatever the page argument is and whatever
  the interpreter's conversion of texts to integers answers: it returns a page whose
  number lies between 1 and the number of pages, which is the ceiling of length /
  page size, and that page holds the slice of the items that belongs to its number.
  A page argument that \<open>int\<close> rejects (as it does "abc", and \<open>None\<close>) yields page
  1; an argument whose integer value lies above the number of pages yields the last
  page; the value 0 yields a valid page; a value in range yields that page.
\<close>

theorem paginate_results_clamps:
  assumes "items \<noteq> []" and "0 < items_per_page"
  shows "\<exists>page_obj.
           paginate_results int_of_text items page_number items_per_page = Inr page_obj
         \<and> num_pages (pg_paginator page_obj)
             = Inr \<lceil>real (length items) / real_of_int items_per_page\<rceil>
         \<and> 1 \<le> pg_number page_obj
         \<and> pg_number page_obj \<le> \<lceil>real (length items) / real_of_int items_per_page\<rceil>
         \<and> pg_object_list page_obj
             = take (nat items_per_page)
                 (drop (nat ((pg_number page_obj - 1) * items_per_page)) items)
         \<and> (py_int int_of_text page_number = None \<longrightarrow> pg_number page_obj = 1)
         \<and> (\<forall>n. py_int int_of_text page_number = Some n
                \<and> \<lceil>real (length items) / real_of_int items_per_page\<rceil> < n
              \<longrightarrow> pg_number page_obj = \<lceil>real (length items) / real_of_int items_per_page\<rceil>)
         \<and> (py_int int_of_text page_number = Some 0
              \<longrightarrow> 1 \<le> pg_number page_obj
                \<and> pg_number page_obj \<le> \<lceil>real (length items) / real_of_int items_per_page\<rceil>)
         \<and> (\<forall>n. py_int int_of_text page_number = Some n \<and> 1 \<le> n
                \<and> n \<le> \<lceil>real (length items) / real_of_int items_per_page\<rceil>
              \<longrightarrow> pg_number page_obj = n)"
proof -
  have len: "max 1 (int (length items)) = int (length items)"
    using assms(1) by (cases items) auto
  have ceil: "\<lceil>of_int (max 1 (int (length items))) / (of_int items_per_page :: real)\<rceil>
      = \<lceil>real (length items) / real_of_int items_per_page\<rceil>"
    by (simp only: len of_int_of_nat_eq)
  have np1: "1 \<le> \<lceil>real (length items) / real_of_int items_per_page\<rceil>"
    using last_page_ge_1 [OF assms(2), of items] by (simp only: ceil)
  have np: "num_pages \<lparr>object_list = items, per_page = items_per_page\<rparr>
      = Inr \<lceil>real (length items) / real_of_int items_per_page\<rceil>"
    using num_pages_ceiling [OF assms(2), of items] by (simp only: ceil)
  show ?thesis
    using np np1
    by (cases "py_int int_of_text page_number")
       (auto simp add: paginate_results_cases [OF assms(2)] ceil Let_def)
qed

text \<open>
  On the seven items \<open>abcdefg\<close> with three items per page (three pages), for every
  conversion of texts: the argument \<open>None\<close>, which is no integer, gives page 1 with
  the items \<open>abc\<close>; the number 5 gives page 3 with the item \<open>g\<close>; the number 0
  gives a page between 1 and 3; the number 2 gives page 2. The text "abc" gives
  page 1 under a conversion that rejects it, as the interpreter's does.
\<close>

theorem paginate_results_clamps_witness:
  "''abcdefg'' \<noteq> [] \<and> (0::int) < 3
   \<and> (\<forall>int_of_text. \<exists>p. paginate_results int_of_text ''abcdefg'' PyNone 3 = Inr p
          \<and> pg_number p = 1 \<and> pg_object_list p = ''abc'')
   \<and> (\<forall>int_of_text. \<exists>p. paginate_results int_of_text ''abcdefg'' (PyInt 5) 3 = Inr p
          \<and> pg_number p = 3 \<and> pg_object_list p = ''g'')
   \<and> (\<forall>int_of_text. \<exists>p. paginate_results int_of_text ''abcdefg'' (PyInt 0) 3 = Inr p
          \<and> 1 \<le> pg_number p \<and> pg_number p \<le> 3)
   \<and> (\<forall>int_of_text. \<exists>p. paginate_results int_of_text ''abcdefg'' (PyInt 2) 3 = Inr p
          \<and> pg_number p = 2 \<and> pg_object_list p = ''def'')
   \<and> (\<exists>p. paginate_results (\<lambda>s. None) ''abcdefg'' (PyStr ''abc'') 3 = Inr p
          \<and> pg_number p = 1 \<and> pg_object_list p = ''abc'')"
proof -
  have c: "\<lceil>real (length ''abcdefg'') / real_of_int 3\<rceil> = 3"
    by simp
  have h1: "''abcdefg'' \<noteq> []" and h2: "(0::int) < 3"
    by simp_all
  have a: "\<exists>p. paginate_results int_of_text ''abcdefg'' PyNone 3 = Inr p
          \<and> pg_number p = 1 \<and> pg_object_list p = ''abc''" for int_of_text
    using paginate_results_clamps [OF h1 h2, of int_of_text PyNone]
    by (auto simp: py_int_def)
  have b: "\<exists>p. paginate_results int_of_text ''abcdefg'' (PyInt 5) 3 = Inr p
          \<and> pg_number p = 3 \<and> pg_object_list p = ''g''" for int_of_text
    using paginate_results_clamps [OF h1 h2, of int_of_text "PyInt 5"]
    unfolding c by (auto simp: py_int_def)
  have z: "\<exists>p. paginate_results int_of_text ''abcdefg'' (PyInt 0) 3 = Inr p
          \<and> 1 \<le> pg_number p \<and> pg_number p \<le> 3" for int_of_text
    using paginate_results_clamps [OF h1 h2, of int_of_text "PyInt 0"]
    unfolding c by (auto simp: py_int_def)
  have m: "\<exists>p. paginate_results int_of_text ''abcdefg'' (PyInt 2) 3 = Inr p
          \<and> pg_number p = 2 \<and> pg_object_list p = ''def''" for int_of_text
    using paginate_results_clamps [OF h1 h2, of int_of_text "PyInt 2"]
    unfolding c by (auto simp: py_int_def)
  have t: "\<exists>p. paginate_results (\<lambda>s. None) ''abcdefg'' (PyStr ''abc'') 3 = Inr p
          \<and> pg_number p = 1 \<and> pg_object_list p = ''abc''"
    using paginate_results_clamps [OF h1 h2, of "\<lambda>s. None" "PyStr ''abc''"]
    by (auto simp: py_int_def)
  from h1 h2 a b z m t show ?thesis
    by blast
qed

text \<open>
  Claim C10. For a non-empty item list and a positive page size, a page argument
  whose integer value is 0 or less makes \<open>paginate_results\<close> return the last page,
  not the first, whatever the interpreter's conversion of texts answers: the
  paginator raises \<open>EmptyPage\<close> for a number below 1, as the first step of the model
  shows, and the handler answers that error with page \<open>num_pages\<close>.
\<close>

theorem paginate_results_nonpositive_last_page:
  assumes "items \<noteq> []" and "0 < items_per_page"
    and "py_int int_of_text page_number = Some n" and "n \<le> 0"
  shows "page int_of_text \<lparr>object_list = items, per_page = items_per_page\<rparr> page_number = Inl EmptyPage
       \<and> paginate_results int_of_text items page_number items_per_page =
           Inr \<lparr>pg_object_list =
                  drop (nat ((\<lceil>real (length items) / real_of_int items_per_page\<rceil> - 1)
                         * items_per_page)) items,
                pg_number = \<lceil>real (length items) / real_of_int items_per_page\<rceil>,
                pg_paginator = \<lparr>object_list = items, per_page = items_per_page\<rparr>\<rparr>"
proof -
  let ?np = "\<lceil>real (length items) / real_of_int items_per_page\<rceil>"
  have len: "max 1 (int (length items)) = int (length items)"
    using assms(1) by (cases items) auto
  have ceil: "\<lceil>of_int (max 1 (int (length items))) / (of_int items_per_page :: real)\<rceil> = ?np"
    by (simp only: len of_int_of_nat_eq)
  have empty: "page int_of_text \<lparr>object_list = items, per_page = items_per_page\<rparr> page_number
      = Inl EmptyPage"
    using assms by (intro page_out_of_range) auto
  have pos: "0 < real_of_int items_per_page"
    using assms(2) by simp
  have "real (length items) / real_of_int items_per_page \<le> real_of_int ?np"
    by linarith
  then have "real (length items) \<le> real_of_int ?np * real_of_int items_per_page"
    unfolding pos_divide_le_eq [OF pos] .
  then have "real (length items) \<le> real_of_int (?np * items_per_page)"
    by simp
  then have le: "int (length items) \<le> ?np * items_per_page"
    by linarith
  have np1: "1 \<le> ?np"
    using last_page_ge_1 [OF assms(2), of items] by (simp only: ceil)
  have "length items - nat ((?np - 1) * items_per_page) \<le> nat items_per_page"
  proof -
    have "0 \<le> (?np - 1) * items_per_page" using np1 assms(2) by simp
    moreover have "?np * items_per_page = (?np - 1) * items_per_page + items_per_page"
      by (simp add: algebra_simps)
    ultimately show ?thesis using le by linarith
  qed
  then have all: "take (nat items_per_page) (drop (nat ((?np - 1) * items_per_page)) items)
      = drop (nat ((?np - 1) * items_per_page)) items"
    by simp
  have "paginate_results int_of_text items page_number items_per_page =
      Inr \<lparr>pg_object_list = take (nat items_per_page)
                (drop (nat ((?np - 1) * items_per_page)) items),
           pg_number = ?np,
           pg_paginator = \<lparr>object_list = items, per_page = items_per_page\<rparr>\<rparr>"
    using assms(3,4) np1
    by (simp add: paginate_results_cases [OF assms(2)] ceil Let_def)
  with all empty show ?thesis
    by simp
qed

text \<open>
  On the seven items \<open>abcdefg\<close> with three items per page, for every conversion of
  texts, page 0 and page -2 both give page 3, which holds the last item.
\<close>

theorem paginate_results_nonpositive_last_page_witness:
  "''abcdefg'' \<noteq> [] \<and> (0::int) < 3 \<and> (0::int) \<le> 0 \<and> (- 2 :: int) \<le> 0
   \<and> (\<forall>int_of_text. py_int int_of_text (PyInt 0) = Some 0
         \<and> paginate_results int_of_text ''abcdefg'' (PyInt 0) 3 =
             Inr \<lparr>pg_object_list = ''g'', pg_number = 3,
                  pg_paginator = \<lparr>object_list = ''abcdefg'', per_page = 3\<rparr>\<rparr>)
   \<and> (\<forall>int_of_text. py_int int_of_text (PyInt (- 2)) = Some (- 2)
         \<and> paginate_results int_of_text ''abcdefg'' (PyInt (- 2)) 3 =
             Inr \<lparr>pg_object_list = ''g'', pg_number = 3,
                  pg_paginator = \<lparr>object_list = ''abcdefg'', per_page = 3\<rparr>\<rparr>)"
proof -
  have c: "\<lceil>real (length ''abcdefg'') / real_of_int 3\<rceil> = 3"
    by simp
  have h1: "''abcdefg'' \<noteq> []" and h2: "(0::int) < 3"
    and z0: "(0::int) \<le> 0" and z2: "(- 2 :: int) \<le> 0"
    by simp_all
  have p0: "py_int int_of_text (PyInt 0) = Some 0"
    and p2: "py_int int_of_text (PyInt (- 2)) = Some (- 2)" for int_of_text
    by (simp_all add: py_int_def)
  have a: "paginate_results int_of_text ''abcdefg'' (PyInt 0) 3 =
             Inr \<lparr>pg_object_list = ''g'', pg_number = 3,
                  pg_paginator = \<lparr>object_list = ''abcdefg'', per_page = 3\<rparr>\<rparr>" for int_of_text
    using paginate_results_nonpositive_last_page [OF h1 h2 p0 z0, of int_of_text]
    unfolding c by simp
  have b: "paginate_results int_of_text ''abcdefg'' (PyInt (- 2)) 3 =
             Inr \<lparr>pg_object_list = ''g'', pg_number = 3,
                  pg_paginator = \<lparr>object_list = ''abcdefg'', per_page = 3\<rparr>\<rparr>" for int_of_text
    using paginate_results_nonpositive_last_page [OF h1 h2 p2 z2, of int_of_text]
    unfolding c by simp
  from h1 h2 z0 z2 p0 p2 a b show ?thesis
    by blast
qed

text \<open>
  The cases of the repository's own test of \<open>paginate_results\<close>, on the thirty items
  0 to 29 with ten items per page: page 2 holds the items 10 to 19; page 5 gives
  page 3 with the items 20 to 29; page 0 gives page 3; and the text "abc", which
  \<open>int\<close> rejects, gives page 1 with the items 0 to 9.
\<close>

lemma paginate_results_repository_test:
  assumes "int_of_text ''abc'' = None"
  shows "map_sum id (\<lambda>p. (pg_number p, pg_object_list p))
           (paginate_results int_of_text [0..<30] (PyInt 2) 10) = Inr (2, [10..<20])"
    and "map_sum id (\<lambda>p. (pg_number p, pg_object_list p))
           (paginate_results int_of_text [0..<30] (PyStr ''abc'') 10) = Inr (1, [0..<10])"
    and "map_sum id (\<lambda>p. (pg_number p, pg_object_list p))
           (paginate_results int_of_text [0..<30] (PyInt 5) 10) = Inr (3, [20..<30])"
    and "map_sum id pg_number (paginate_results int_of_text [0..<30] (PyInt 0) 10) = Inr 3"
proof -
  have pos: "(0::int) < 10"
    by simp
  have c: "\<lceil>real_of_int (max 1 (int (length [0..<30]))) / real_of_int 10\<rceil> = 3"
    by simp
  show "map_sum id (\<lambda>p. (pg_number p, pg_object_list p))
           (paginate_results int_of_text [0..<30] (PyInt 2) 10) = Inr (2, [10..<20])"
    unfolding paginate_results_cases [OF pos] c by (simp add: py_int_def Let_def)
  show "map_sum id (\<lambda>p. (pg_number p, pg_object_list p))
           (paginate_results int_of_text [0..<30] (PyStr ''abc'') 10) = Inr (1, [0..<10])"
    unfolding paginate_results_cases [OF pos] c
    using assms by (simp add: py_int_def Let_def)
  show "map_sum id (\<lambda>p. (pg_number p, pg_object_list p))
           (paginate_results int_of_text [0..<30] (PyInt 5) 10) = Inr (3, [20..<30])"
    unfolding paginate_results_cases [OF pos] c by (simp add: py_int_def Let_def)
  show "map_sum id pg_number (paginate_results int_of_text [0..<30] (PyInt 0) 10) = Inr 3"
    unfolding paginate_results_cases [OF pos] c by (simp add: py_int_def Let_def)
qed

text \<open>
  In the pipeline the page size is 15, so the page of \<open>popular\<close> is always built,
  whatever the page parameter of the request is.
\<close>

lemma popular_page_returns:
  "\<exists>page_obj. popular_page int_of_text media_url watchlist_ids movies_qs tv_shows_qs
      page_number = Inr page_obj"
proof -
  have "(0::int) < ITEMS_PER_PAGE"
    by (simp add: ITEMS_PER_PAGE_def)
  then show ?thesis
    unfolding popular_page_def by (simp add: paginate_results_cases Let_def)
qed

section \<open>Properties of the badge evaluator\<close>

lemma get_or_create_user_badge_prefix: "prefix rows (get_or_create_user_badge user b rows)"
  by (simp add: get_or_create_user_badge_def)

lemma award_loop_prefix: "prefix rows (award_loop user counter bs rows)"
proof (induction bs arbitrary: rows)
  case Nil
  show ?case by simp
next
  case (Cons b bs)
  have "prefix rows (get_or_create_user_badge user (b_id b) rows)"
    by (rule get_or_create_user_badge_prefix)
  also have "prefix \<dots> (award_loop user counter bs (get_or_create_user_badge user (b_id b) rows))"
    by (rule Cons.IH)
  finally show ?case
    using Cons.IH [of rows] by simp
qed

lemma check_badges_prefix:
  "prefix rows (check_badges user movie_count tv_count reviews hours badges rows)"
  unfolding check_badges_def
  by (blast intro: award_loop_prefix prefix_order.trans)

text \<open>
  Claim C4. Badge grants are monotonic. Whatever the four counters are, also when
  they lie below every threshold, the evaluator returns the table of grants it was
  given with new rows appended at most: the old table is a prefix of the new one,
  so every (user, badge) row that existed is still in place, and no row is deleted
  or changed. The same holds for the evaluator run from the watched rows of any
  later state.
\<close>

theorem check_badges_keeps_grants:
  "prefix rows (check_badges user movie_count tv_count reviews hours badges rows)
   \<and> prefix rows (profile_view_badges user watched badges rows)
   \<and> (\<forall>g. g \<in> set rows \<longrightarrow>
          g \<in> set (check_badges user movie_count tv_count reviews hours badges rows)
        \<and> g \<in> set (profile_view_badges user watched badges rows))"
proof -
  have a: "prefix rows (check_badges user movie_count tv_count reviews hours badges rows)"
    by (rule check_badges_prefix)
  have b: "prefix rows (profile_view_badges user watched badges rows)"
    unfolding profile_view_badges_def by (rule check_badges_prefix)
  from a b show ?thesis
    by (auto dest: set_mono_prefix)
qed

text \<open>
  A user reaches five watched movies and is granted the badge of threshold 5; the
  evaluator then runs with all counters at 0 and the grant stays.
\<close>

theorem check_badges_keeps_grants_witness:
  "check_badges 7 5 0 0 0 [example_badge] [] = [\<lparr>ub_user = 7, ub_badge = 1\<rparr>]
   \<and> \<lparr>ub_user = 7, ub_badge = 1\<rparr> \<in> set [\<lparr>ub_user = 7, ub_badge = 1\<rparr>]
   \<and> \<lparr>ub_user = 7, ub_badge = 1\<rparr>
        \<in> set (check_badges 7 0 0 0 0 [example_badge] [\<lparr>ub_user = 7, ub_badge = 1\<rparr>])
   \<and> check_badges 7 0 0 0 0 [example_badge] [\<lparr>ub_user = 7, ub_badge = 1\<rparr>]
        = [\<lparr>ub_user = 7, ub_badge = 1\<rparr>]"
  using check_badges_keeps_grants [of "[\<lparr>ub_user = 7, ub_badge = 1\<rparr>]" 7 0 0 0 0
      "[example_badge]" "[]"]
  by (simp add: check_badges_def badges_of_type_def example_badge_def
      get_or_create_user_badge_def)

lemma total_minutes_per_entry:
  "sum_list (List.map_filter wm_runtime items)
     + (int (length (filter (\<lambda>w. wm_media_type w = ''movie'')
                       (filter (\<lambda>w. wm_runtime w = None) items))) * 120
        + int (length (filter (\<lambda>w. wm_media_type w = ''tv'')
                       (filter (\<lambda>w. wm_runtime w = None) items))) * 400)
   = sum_list (map entry_minutes items)"
proof (induction items)
  case Nil
  show ?case by simp
next
  case (Cons w ws)
  then show ?case
    by (cases "wm_runtime w") (simp_all add: entry_minutes_def)
qed

text \<open>
  Claim C9. The watch-time counter of the badge evaluator is the user's total watch
  time in minutes, floor-divided by 60, where the total is the sum of the stored
  runtimes of the user's watched entries that have one, plus 120 minutes for each
  watched movie entry without a runtime and 400 minutes for each watched TV entry
  without a runtime. Equivalently, every entry counts for its runtime, or for its
  estimate when it has none. It is this counter that the evaluator compares with
  the thresholds of the \<open>watch_hours\<close> badges.
\<close>

theorem total_watch_hours_formula:
  "total_watch_hours user watched =
     (sum_list (map (\<lambda>w. case wm_runtime w of Some r \<Rightarrow> r | None \<Rightarrow> 0)
                  (filter (\<lambda>w. wm_user w = user) watched))
      + 120 * int (length (filter (\<lambda>w. wm_user w = user \<and> wm_media_type w = ''movie''
                                      \<and> wm_runtime w = None) watched))
      + 400 * int (length (filter (\<lambda>w. wm_user w = user \<and> wm_media_type w = ''tv''
                                      \<and> wm_runtime w = None) watched))) div 60
   \<and> total_watch_hours user watched =
       sum_list (map entry_minutes (filter (\<lambda>w. wm_user w = user) watched)) div 60
   \<and> profile_view_badges user watched badges rows =
       award_loop user (total_watch_hours user watched) (badges_of_type ''watch_hours'' badges)
         (award_loop user (reviews_written user watched)
            (badges_of_type ''reviews_written'' badges)
            (award_loop user (watched_tv_count user watched)
               (badges_of_type ''tv_shows_watched'' badges)
               (award_loop user (watched_movie_count user watched)
                  (badges_of_type ''movies_watched'' badges) rows)))"
proof -
  let ?items = "filter (\<lambda>w. wm_user w = user) watched"
  have rt: "sum_list (List.map_filter wm_runtime xs)
      = sum_list (map (\<lambda>w. case wm_runtime w of Some r \<Rightarrow> r | None \<Rightarrow> 0) xs)"
    for xs :: "watched_movie list"
  proof (induction xs)
    case Nil
    show ?case by simp
  next
    case (Cons w ws)
    then show ?case
      by (cases "wm_runtime w") simp_all
  qed
  have f1: "filter (\<lambda>w. wm_media_type w = t) (filter (\<lambda>w. wm_runtime w = None) ?items)
      = filter (\<lambda>w. wm_user w = user \<and> wm_media_type w = t \<and> wm_runtime w = None) watched"
    for t
    by (induction watched) auto
  have m: "total_watch_minutes user watched =
      sum_list (List.map_filter wm_runtime ?items)
      + (int (length (filter (\<lambda>w. wm_media_type w = ''movie'')
                        (filter (\<lambda>w. wm_runtime w = None) ?items))) * 120
         + int (length (filter (\<lambda>w. wm_media_type w = ''tv'')
                        (filter (\<lambda>w. wm_runtime w = None) ?items))) * 400)"
    by (simp add: total_watch_minutes_def watched_items_def Let_def)
  have a: "total_watch_hours user watched =
     (sum_list (map (\<lambda>w. case wm_runtime w of Some r \<Rightarrow> r | None \<Rightarrow> 0) ?items)
      + 120 * int (length (filter (\<lambda>w. wm_user w = user \<and> wm_media_type w = ''movie''
                                      \<and> wm_runtime w = None) watched))
      + 400 * int (length (filter (\<lambda>w. wm_user w = user \<and> wm_media_type w = ''tv''
                                      \<and> wm_runtime w = None) watched))) div 60"
    unfolding total_watch_hours_def m rt f1 by (simp add: algebra_simps)
  have b: "total_watch_hours user watched = sum_list (map entry_minutes ?items) div 60"
    unfolding total_watch_hours_def m total_minutes_per_entry ..
  have c: "profile_view_badges user watched badges rows =
       award_loop user (total_watch_hours user watched) (badges_of_type ''watch_hours'' badges)
         (award_loop user (reviews_written user watched)
            (badges_of_type ''reviews_written'' badges)
            (award_loop user (watched_tv_count user watched)
               (badges_of_type ''tv_shows_watched'' badges)
               (award_loop user (watched_movie_count user watched)
                  (badges_of_type ''movies_watched'' badges) rows)))"
    by (simp add: profile_view_badges_def check_badges_def)
  from a b c show ?thesis
    by blast
qed

text \<open>
  User 7 has watched a movie of 136 minutes, a movie without runtime and a TV show
  without runtime: 136 + 120 + 400 = 656 minutes, that is 10 hours.
\<close>

theorem total_watch_hours_formula_witness:
  "total_watch_hours 7 example_watched = 10
   \<and> sum_list (map entry_minutes (filter (\<lambda>w. wm_user w = 7) example_watched)) = 656"
  using total_watch_hours_formula [of 7 example_watched "[]" "[]"]
  by (simp add: example_watched_def entry_minutes_def)

section \<open>Properties of friend requests\<close>

lemma save_request_self:
  "req \<in> set rows \<Longrightarrow> req\<lparr>status := s\<rparr> \<in> set (save_request (req\<lparr>status := s\<rparr>) rows)"
  by (force simp: save_request_def)

text \<open>
  Claim C5. Let A and B be two distinct users of the user table with no friend
  request row between them in either direction. Then \<open>A.send_friend_request(B)\<close>
  succeeds, \<open>B.accept_friend_request(A)\<close> on the resulting state succeeds, and in
  the state after both, B is among \<open>A.get_friends()\<close> and A is among
  \<open>B.get_friends()\<close>.
\<close>

theorem friend_request_symmetry:
  assumes "a \<noteq> b" and "a \<in> set (users db)" and "b \<in> set (users db)"
    and "\<forall>r \<in> set (friend_requests db). \<not> between a b r"
  shows "\<exists>db1 db2.
           send_friend_request a b db = (True, db1)
         \<and> accept_friend_request b a db1 = Inr (True, db2)
         \<and> b \<in> set (get_friends a db2)
         \<and> a \<in> set (get_friends b db2)"
proof -
  let ?new = "\<lparr>fr_id = Suc (fold max (map fr_id (friend_requests db)) 0),
               from_user = a, to_user = b, status = Pending\<rparr>"
  let ?db1 = "db\<lparr>friend_requests := friend_requests db @ [?new]\<rparr>"
  let ?acc = "?new\<lparr>status := Accepted\<rparr>"
  let ?db2 = "?db1\<lparr>friend_requests := save_request ?acc (friend_requests ?db1)\<rparr>"
  have none: "filter (between a b) (friend_requests db) = []"
    using assms(4) by (simp add: filter_empty_conv)
  have send: "send_friend_request a b db = (True, ?db1)"
    using assms(1) none by (simp add: send_friend_request_def)
  have "filter (\<lambda>r. from_user r = a \<and> to_user r = b \<and> status r = Pending)
          (friend_requests db) = []"
    using assms(4) by (auto simp: filter_empty_conv between_def)
  then have pend: "filter (\<lambda>r. from_user r = a \<and> to_user r = b \<and> status r = Pending)
          (friend_requests ?db1) = [?new]"
    by simp
  have accept: "accept_friend_request b a ?db1 = Inr (True, ?db2)"
    unfolding accept_friend_request_def pend by simp
  have "?new \<in> set (friend_requests ?db1)"
    by simp
  then have "?acc \<in> set (save_request ?acc (friend_requests ?db1))"
    by (rule save_request_self)
  then have row: "?acc \<in> set (friend_requests ?db2)"
    by simp
  have u: "users ?db2 = users db"
    by simp
  have fa: "b \<in> set (get_friends a ?db2)"
    unfolding get_friends_def Let_def using row assms(3)
    by (simp only: u set_filter set_append set_map) force
  have fb: "a \<in> set (get_friends b ?db2)"
    unfolding get_friends_def Let_def using row assms(2)
    by (simp only: u set_filter set_append set_map) force
  from send accept fa fb show ?thesis
    by blast
qed

text \<open>
  Users 1 and 3 are friends already; user 1 sends a request to user 2, who accepts:
  user 1 then has the friends 2 and 3, and user 2 has the friend 1.
\<close>

theorem friend_request_symmetry_witness:
  "(1::nat) \<noteq> 2 \<and> 1 \<in> set (users example_social_db) \<and> 2 \<in> set (users example_social_db)
   \<and> filter (between 1 2) (friend_requests example_social_db) = []
   \<and> (\<exists>db1 db2.
          send_friend_request 1 2 example_social_db = (True, db1)
        \<and> accept_friend_request 2 1 db1 = Inr (True, db2)
        \<and> 2 \<in> set (get_friends 1 db2)
        \<and> 1 \<in> set (get_friends 2 db2))"
proof -
  have h1: "(1::nat) \<noteq> 2"
    by simp
  have h2: "1 \<in> set (users example_social_db)" and h3: "2 \<in> set (users example_social_db)"
    by (simp_all add: example_social_db_def)
  have h4: "\<forall>r \<in> set (friend_requests example_social_db). \<not> between 1 2 r"
    by (simp add: example_social_db_def between_def)
  have h5: "filter (between 1 2) (friend_requests example_social_db) = []"
    by (simp add: example_social_db_def between_def)
  from friend_request_symmetry [OF h1 h2 h3 h4] h1 h2 h3 h5 show ?thesis
    by (intro conjI)
qed

lemma example_friends_after_accept:
  "get_friends 1
     (snd (projr (accept_friend_request 2 1
        (snd (send_friend_request 1 2 example_social_db))))) = [2, 3]"
  by (simp add: example_social_db_def send_friend_request_def between_def
      accept_friend_request_def save_request_def get_friends_def)

section \<open>Properties of the API client\<close>

lemma discover_loop_last:
  assumes "discover_loop up res ks = Inr out" and "ks \<noteq> []"
  shows "\<exists>i r. kw_id (last ks) = Some i \<and> discover_movie up i = Inr r \<and> out = Some r"
  using assms
proof (induction ks arbitrary: res)
  case Nil
  then show ?case by simp
next
  case (Cons k ks)
  from Cons.prems(1) obtain i r where
    k: "kw_id k = Some i" "discover_movie up i = Inr r"
    and rest: "discover_loop up (Some r) ks = Inr out"
    by (auto split: option.splits sum.splits)
  show ?case
  proof (cases "ks = []")
    case True
    with k rest show ?thesis by simp
  next
    case False
    with Cons.IH [OF rest] show ?thesis by simp
  qed
qed

lemma discover_loop_succeeds:
  assumes "\<forall>k \<in> set ks. \<exists>i r. kw_id k = Some i \<and> discover_movie up i = Inr r"
  shows "\<exists>out. discover_loop up res ks = Inr out"
  using assms
proof (induction ks arbitrary: res)
  case Nil
  show ?case by simp
next
  case (Cons k ks)
  then obtain i r where "kw_id k = Some i" "discover_movie up i = Inr r"
    by auto
  with Cons show ?case by simp
qed

lemma discover_loop_cong:
  assumes "\<forall>k \<in> set ks. \<forall>i. kw_id k = Some i \<longrightarrow> discover_movie up' i = discover_movie up i"
  shows "discover_loop up' res ks = discover_loop up res ks"
  using assms
  by (induction ks arbitrary: res) (auto split: option.splits sum.splits)

text \<open>
  Claim C8. When the keyword lookup for a query returns at least one keyword,
  \<open>keyword_search\<close> works on the first three keywords at most: its outcome depends
  on the upstream only through the lookup and the discover responses for the ids of
  those keywords. What it returns is the discover response for the last of them
  alone, the responses for the earlier keywords being overwritten, not merged. It
  does return when each of those keywords has an id and its discover request
  succeeds.
\<close>

theorem keyword_search_last_keyword:
  assumes "search_keyword up query = Inr (Some keywords)" and "keywords \<noteq> []"
  shows "length (take 3 keywords) \<le> 3
       \<and> (\<forall>up'. search_keyword up' query = search_keyword up query
              \<and> (\<forall>k \<in> set (take 3 keywords). \<forall>i. kw_id k = Some i
                    \<longrightarrow> discover_movie up' i = discover_movie up i)
            \<longrightarrow> keyword_search up' query = keyword_search up query)
       \<and> (\<forall>results. keyword_search up query = Inr results
            \<longrightarrow> (\<exists>i. kw_id (last (take 3 keywords)) = Some i
                     \<and> discover_movie up i = Inr results))
       \<and> ((\<forall>k \<in> set (take 3 keywords). \<exists>i r. kw_id k = Some i \<and> discover_movie up i = Inr r)
            \<longrightarrow> (\<exists>results. keyword_search up query = Inr results))"
proof -
  from assms(2) obtain k ks where kws: "keywords = k # ks"
    by (cases "keywords") auto
  have top: "take 3 keywords \<noteq> []"
    using kws by simp
  have ks: "keyword_search u query =
      (case discover_loop u None (take 3 keywords) of
         Inl e \<Rightarrow> Inl e
       | Inr None \<Rightarrow> Inl UnboundLocalError
       | Inr (Some results) \<Rightarrow> Inr results)"
    if "search_keyword u query = Inr (Some keywords)" for u
    using that kws by (simp add: keyword_search_def)
  have a: "keyword_search up' query = keyword_search up query"
    if "search_keyword up' query = search_keyword up query"
      and "\<forall>k \<in> set (take 3 keywords). \<forall>i. kw_id k = Some i
             \<longrightarrow> discover_movie up' i = discover_movie up i"
    for up'
  proof -
    have "discover_loop up' None (take 3 keywords) = discover_loop up None (take 3 keywords)"
      using that(2) by (rule discover_loop_cong)
    then show ?thesis
      using that(1) assms(1) by (simp add: ks)
  qed
  have b: "\<exists>i. kw_id (last (take 3 keywords)) = Some i \<and> discover_movie up i = Inr results"
    if "keyword_search up query = Inr results" for results
  proof -
    from that have "discover_loop up None (take 3 keywords) = Inr (Some results)"
      by (simp add: ks [OF assms(1)] split: sum.splits option.splits)
    from discover_loop_last [OF this top] show ?thesis
      by auto
  qed
  have c: "\<exists>results. keyword_search up query = Inr results"
    if "\<forall>k \<in> set (take 3 keywords). \<exists>i r. kw_id k = Some i \<and> discover_movie up i = Inr r"
  proof -
    from discover_loop_succeeds [OF that] obtain out
      where out: "discover_loop up None (take 3 keywords) = Inr out"
      by blast
    from discover_loop_last [OF out top] obtain r where "out = Some r"
      by blast
    with out show ?thesis
      by (simp add: ks [OF assms(1)])
  qed
  show ?thesis
  proof (intro conjI allI impI)
    show "length (take 3 keywords) \<le> 3"
      by simp
  next
    fix up' :: upstream
    assume "search_keyword up' query = search_keyword up query
          \<and> (\<forall>k \<in> set (take 3 keywords). \<forall>i. kw_id k = Some i
                \<longrightarrow> discover_movie up' i = discover_movie up i)"
    then show "keyword_search up' query = keyword_search up query"
      using a [of up'] by (elim conjE)
  next
    fix results
    assume "keyword_search up query = Inr results"
    then show "\<exists>i. kw_id (last (take 3 keywords)) = Some i \<and> discover_movie up i = Inr results"
      by (rule b)
  next
    assume "\<forall>k \<in> set (take 3 keywords). \<exists>i r. kw_id k = Some i \<and> discover_movie up i = Inr r"
    then show "\<exists>results. keyword_search up query = Inr results"
      by (rule c)
  qed
qed

text \<open>
  The lookup finds the keywords 10, 20, 30 and 40. The search returns the discover
  list of keyword 30, the third: the titles 2 and 130, without the titles 110 and
  120 of the first two keywords and without the title 140 of the fourth.
\<close>

theorem keyword_search_last_keyword_witness:
  "search_keyword example_upstream ''matrix'' =
     Inr (Some [\<lparr>kw_id = Some 10, kw_name = None\<rparr>, \<lparr>kw_id = Some 20, kw_name = None\<rparr>,
                \<lparr>kw_id = Some 30, kw_name = None\<rparr>, \<lparr>kw_id = Some 40, kw_name = None\<rparr>])
   \<and> [\<lparr>kw_id = Some 10, kw_name = None\<rparr>, \<lparr>kw_id = Some 20, kw_name = None\<rparr>,
       \<lparr>kw_id = Some 30, kw_name = None\<rparr>, \<lparr>kw_id = Some 40, kw_name = None\<rparr>] \<noteq> []
   \<and> keyword_search example_upstream ''matrix'' =
       Inr (example_response [example_item 2 ''Sequel'', example_item 130 ''Keyword Movie''])
   \<and> discover_movie example_upstream 30 =
       Inr (example_response [example_item 2 ''Sequel'', example_item 130 ''Keyword Movie''])"
proof -
  let ?kws = "[\<lparr>kw_id = Some 10, kw_name = None\<rparr>, \<lparr>kw_id = Some 20, kw_name = None\<rparr>,
               \<lparr>kw_id = Some 30, kw_name = None\<rparr>, \<lparr>kw_id = Some 40, kw_name = None\<rparr>]"
  have h1: "search_keyword example_upstream ''matrix'' = Inr (Some ?kws)"
    by (simp add: example_upstream_def)
  have h2: "?kws \<noteq> []"
    by simp
  have d: "discover_movie example_upstream 30 =
       Inr (example_response [example_item 2 ''Sequel'', example_item 130 ''Keyword Movie''])"
    by (simp add: example_upstream_def)
  have all: "\<forall>k \<in> set (take 3 ?kws). \<exists>i r. kw_id k = Some i \<and> discover_movie example_upstream i = Inr r"
    by (simp add: example_upstream_def)
  from keyword_search_last_keyword [OF h1 h2] all
  obtain results where r: "keyword_search example_upstream ''matrix'' = Inr results"
    by blast
  from keyword_search_last_keyword [OF h1 h2] r
  have "\<exists>i. kw_id (last (take 3 ?kws)) = Some i \<and> discover_movie example_upstream i = Inr results"
    by blast
  then have "discover_movie example_upstream 30 = Inr results"
    by simp
  with d r have "keyword_search example_upstream ''matrix'' =
       Inr (example_response [example_item 2 ''Sequel'', example_item 130 ''Keyword Movie''])"
    by simp
  with h1 h2 d show ?thesis
    by blast
qed
lemma remove_duplicates_acc:
  "remove_duplicates seen unique xs = unique @ remove_duplicates seen [] xs"
proof (induction xs arbitrary: seen unique)
  case Nil
  show ?case by simp
next
  case (Cons x xs)
  show ?case
  proof (cases "ri_id x")
    case None
    then show ?thesis using Cons.IH [of seen unique] by simp
  next
    case (Some i)
    show ?thesis
    proof (cases "i \<noteq> 0 \<and> i \<notin> seen")
      case True
      then show ?thesis
        using Some Cons.IH [of "insert i seen" "unique @ [x]"] Cons.IH [of "insert i seen" "[x]"]
        by simp
    next
      case False
      then show ?thesis using Some Cons.IH [of seen unique] by auto
    qed
  qed
qed

lemma remove_duplicates_first_seen:
  assumes "\<forall>i. i \<noteq> 0 \<longrightarrow> (i \<in> seen \<longleftrightarrow> Some i \<in> set S)"
  shows "remove_duplicates seen [] xs = first_seen S (filter truthy_id xs)"
  using assms
proof (induction xs arbitrary: seen S)
  case Nil
  show ?case by simp
next
  case (Cons x xs)
  show ?case
  proof (cases "ri_id x")
    case None
    then show ?thesis using Cons.IH [OF Cons.prems] by (simp add: truthy_id_def)
  next
    case (Some i)
    show ?thesis
    proof (cases "i = 0")
      case True
      then show ?thesis using Some Cons.IH [OF Cons.prems] by (simp add: truthy_id_def)
    next
      case nz: False
      show ?thesis
      proof (cases "i \<in> seen")
        case True
        then have "Some i \<in> set S" using Cons.prems nz by simp
        then show ?thesis
          using Some nz True Cons.IH [OF Cons.prems] by (simp add: truthy_id_def)
      next
        case False
        then have notin: "Some i \<notin> set S" using Cons.prems nz by simp
        have rel: "\<forall>j. j \<noteq> 0 \<longrightarrow> (j \<in> insert i seen \<longleftrightarrow> Some j \<in> set (Some i # S))"
          using Cons.prems by auto
        have "remove_duplicates seen [] (x # xs) = remove_duplicates (insert i seen) [x] xs"
          using Some nz False by simp
        also have "\<dots> = [x] @ remove_duplicates (insert i seen) [] xs"
          by (rule remove_duplicates_acc)
        also have "\<dots> = x # first_seen (Some i # S) (filter truthy_id xs)"
          using Cons.IH [OF rel] by simp
        also have "\<dots> = first_seen S (filter truthy_id (x # xs))"
          using Some nz notin by (simp add: truthy_id_def)
        finally show ?thesis .
      qed
    qed
  qed
qed

lemma first_seen_subseq: "subseq (first_seen S xs) xs"
  by (induction xs arbitrary: S) auto

lemma first_seen_set: "set (first_seen S xs) \<subseteq> set xs"
  by (induction xs arbitrary: S) auto

lemma first_seen_ids: "set (map ri_id (first_seen S xs)) = set (map ri_id xs) - set S"
  by (induction xs arbitrary: S) auto

lemma first_seen_distinct: "distinct (map ri_id (first_seen S xs))"
proof (induction xs arbitrary: S)
  case Nil
  show ?case by simp
next
  case (Cons x xs)
  have "ri_id x \<notin> set (map ri_id (first_seen (ri_id x # S) xs))"
    unfolding first_seen_ids by simp
  with Cons.IH show ?case by simp
qed

lemma first_seen_first:
  assumes "x \<in> set (first_seen S xs)"
  shows "find (\<lambda>y. ri_id y = ri_id x) xs = Some x"
  using assms
proof (induction xs arbitrary: S)
  case Nil
  then show ?case by simp
next
  case (Cons y ys)
  show ?case
  proof (cases "ri_id y \<in> set S")
    case True
    with Cons.prems have in_rest: "x \<in> set (first_seen S ys)" by simp
    then have "ri_id x \<in> set (map ri_id (first_seen S ys))" by force
    then have "ri_id x \<notin> set S" unfolding first_seen_ids by simp
    with True have "ri_id y \<noteq> ri_id x" by auto
    with Cons.IH [OF in_rest] show ?thesis by simp
  next
    case False
    with Cons.prems consider "x = y" | "x \<in> set (first_seen (ri_id y # S) ys)" by auto
    then show ?thesis
    proof cases
      case 1
      then show ?thesis by simp
    next
      case 2
      then have "ri_id x \<in> set (map ri_id (first_seen (ri_id y # S) ys))" by force
      then have "ri_id x \<noteq> ri_id y" unfolding first_seen_ids by auto
      with Cons.IH [OF 2] show ?thesis by simp
    qed
  qed
qed

lemma distinct_count_list_1:
  "distinct xs \<Longrightarrow> x \<in> set xs \<Longrightarrow> count_list xs x = 1"
  by (induction xs) auto

lemma find_filter_implied:
  assumes "\<And>y. P y \<Longrightarrow> Q y"
  shows "find P (filter Q xs) = find P xs"
  using assms by (induction xs) auto

lemma extend_results_eq: "extend_results acc r = acc @ results_of r"
  by (simp add: extend_results_def results_of_def split: option.splits list.splits)

lemma search_unfolded:
  assumes "search_type \<in> set [''movie'', ''tv'', ''multi'']"
    and "get_collection_movies up query = Inr collection_result"
    and "keyword_search up query = Inr keyword_result"
    and "search_title up search_type query page_no = Inr title_search"
  shows "search up query search_type page_no =
     Inr \<lparr>sr_query = query,
          sr_results =
            (if first_seen [] (filter truthy_id
                  (results_of collection_result @ results_of keyword_result
                     @ results_of title_search)) = []
             then [no_results_item]
             else first_seen [] (filter truthy_id
                  (results_of collection_result @ results_of keyword_result
                     @ results_of title_search)))\<rparr>"
proof -
  have rel: "\<forall>i. i \<noteq> 0 \<longrightarrow> (i \<in> ({} :: int set) \<longleftrightarrow> Some i \<in> set ([] :: int option list))"
    by simp
  have agg: "extend_results (extend_results (extend_results [] collection_result) keyword_result)
        title_search
      = results_of collection_result @ results_of keyword_result @ results_of title_search"
    by (simp add: extend_results_eq)
  have "search up query search_type page_no =
     Inr \<lparr>sr_query = query,
          sr_results =
            (if remove_duplicates {} []
                  (results_of collection_result @ results_of keyword_result
                     @ results_of title_search) = []
             then [no_results_item]
             else remove_duplicates {} []
                  (results_of collection_result @ results_of keyword_result
                     @ results_of title_search))\<rparr>"
    using assms by (simp add: search_def Let_def extend_results_eq)
  then show ?thesis
    by (simp only: remove_duplicates_first_seen [OF rel])
qed

text \<open>
  \<open>search\<close> returns exactly when the search type is valid and its three
  sub-searches return; otherwise the error reaches the caller.
\<close>

lemma search_returns_iff:
  "(\<exists>res. search up query search_type page_no = Inr res) \<longleftrightarrow>
     search_type \<in> set [''movie'', ''tv'', ''multi'']
   \<and> (\<exists>c. get_collection_movies up query = Inr c)
   \<and> (\<exists>k. keyword_search up query = Inr k)
   \<and> (\<exists>t. search_title up search_type query page_no = Inr t)"
  by (auto simp: search_def Let_def split: sum.splits)

text \<open>
  Claim C2, as amended. When the three sub-searches return, \<open>search\<close> concatenates
  the result lists of the collection search, the keyword search and the title
  search in that order, and returns the items of the concatenation whose id is
  present and not 0, each distinct id once, in first-seen order:
  \<^item> the returned list is a subsequence of the concatenation;
  \<^item> every non-zero id of the concatenation occurs in it exactly once;
  \<^item> each returned item is the first item of the concatenation with its id;
  \<^item> items without an id or with the id 0 are dropped;
  \<^item> when nothing is left, the result is the one placeholder item.
\<close>

theorem search_deduplicates:
  assumes "search_type \<in> set [''movie'', ''tv'', ''multi'']"
    and "get_collection_movies up query = Inr collection_result"
    and "keyword_search up query = Inr keyword_result"
    and "search_title up search_type query page_no = Inr title_search"
  shows "\<exists>merged unique.
           merged = results_of collection_result @ results_of keyword_result
                      @ results_of title_search
         \<and> unique = first_seen [] (filter truthy_id merged)
         \<and> search up query search_type page_no =
             Inr \<lparr>sr_query = query,
                  sr_results = (if unique = [] then [no_results_item] else unique)\<rparr>
         \<and> subseq unique merged
         \<and> distinct (map ri_id unique)
         \<and> (\<forall>i. i \<noteq> 0 \<and> Some i \<in> set (map ri_id merged)
              \<longrightarrow> count_list (map ri_id unique) (Some i) = 1)
         \<and> (\<forall>x \<in> set unique.
                truthy_id x \<and> find (\<lambda>y. ri_id y = ri_id x) merged = Some x)"
proof -
  let ?merged = "results_of collection_result @ results_of keyword_result
                   @ results_of title_search"
  let ?unique = "first_seen [] (filter truthy_id ?merged)"
  have s: "search up query search_type page_no =
             Inr \<lparr>sr_query = query,
                  sr_results = (if ?unique = [] then [no_results_item] else ?unique)\<rparr>"
    by (rule search_unfolded [OF assms])
  have "subseq ?unique (filter truthy_id ?merged)"
    by (rule first_seen_subseq)
  also have "subseq \<dots> ?merged"
    by (rule subseq_filter_left)
  finally have sub: "subseq ?unique ?merged" .
  have dist: "distinct (map ri_id ?unique)"
    by (rule first_seen_distinct)
  have ids: "set (map ri_id ?unique) = set (map ri_id (filter truthy_id ?merged))"
    using first_seen_ids [of "[]" "filter truthy_id ?merged"] by simp
  have cnt: "count_list (map ri_id ?unique) (Some i) = 1"
    if "i \<noteq> 0" and "Some i \<in> set (map ri_id ?merged)" for i
  proof -
    from that(2) have "Some i \<in> ri_id ` set ?merged"
      by (simp only: set_map)
    then obtain y where y0: "Some i = ri_id y" "y \<in> set ?merged"
      by (rule imageE)
    then have y: "y \<in> set ?merged" "ri_id y = Some i"
      by simp_all
    with that(1) have "truthy_id y"
      by (simp add: truthy_id_def)
    with y have "Some i \<in> set (map ri_id (filter truthy_id ?merged))"
      by force
    then have "Some i \<in> set (map ri_id ?unique)"
      by (simp only: ids)
    with dist show ?thesis
      by (rule distinct_count_list_1)
  qed
  have fst: "truthy_id x \<and> find (\<lambda>y. ri_id y = ri_id x) ?merged = Some x"
    if "x \<in> set ?unique" for x
  proof -
    from that have "x \<in> set (filter truthy_id ?merged)"
      using first_seen_set [of "[]" "filter truthy_id ?merged"] by blast
    then have t: "truthy_id x"
      by (simp only: set_filter mem_Collect_eq)
    have "find (\<lambda>y. ri_id y = ri_id x) (filter truthy_id ?merged) = Some x"
      using that by (rule first_seen_first)
    moreover have "find (\<lambda>y. ri_id y = ri_id x) (filter truthy_id ?merged)
        = find (\<lambda>y. ri_id y = ri_id x) ?merged"
      using t by (intro find_filter_implied) (simp add: truthy_id_def)
    ultimately show ?thesis
      using t by simp
  qed
  from s sub dist cnt fst show ?thesis
    by blast
qed

text \<open>
  On the overlapping upstream: the collection gives the titles 1 and 2, the keyword
  search the titles 2 and 130, the title search the titles 1 and 4; the search
  returns 1, 2, 130 and 4.
\<close>

theorem search_deduplicates_witness:
  "''multi'' \<in> set [''movie'', ''tv'', ''multi'']
   \<and> get_collection_movies example_upstream ''matrix'' =
       Inr (example_response [example_item 1 ''Collection Movie'', example_item 2 ''Sequel''])
   \<and> keyword_search example_upstream ''matrix'' =
       Inr (example_response [example_item 2 ''Sequel'', example_item 130 ''Keyword Movie''])
   \<and> search_title example_upstream ''multi'' ''matrix'' 1 =
       Inr (example_response [example_item 1 ''Collection Movie'', example_item 4 ''Matrix''])
   \<and> search example_upstream ''matrix'' ''multi'' 1 =
       Inr \<lparr>sr_query = ''matrix'',
            sr_results = [example_item 1 ''Collection Movie'', example_item 2 ''Sequel'',
                          example_item 130 ''Keyword Movie'', example_item 4 ''Matrix'']\<rparr>"
proof -
  have h1: "''multi'' \<in> set [''movie'', ''tv'', ''multi'']"
    by simp
  have h2: "get_collection_movies example_upstream ''matrix'' =
       Inr (example_response [example_item 1 ''Collection Movie'', example_item 2 ''Sequel''])"
    by code_simp
  have h3: "keyword_search example_upstream ''matrix'' =
       Inr (example_response [example_item 2 ''Sequel'', example_item 130 ''Keyword Movie''])"
    by code_simp
  have h4: "search_title example_upstream ''multi'' ''matrix'' 1 =
       Inr (example_response [example_item 1 ''Collection Movie'', example_item 4 ''Matrix''])"
    by (simp add: example_upstream_def)
  have e: "first_seen [] (filter truthy_id
        (results_of (example_response [example_item 1 ''Collection Movie'',
                                       example_item 2 ''Sequel''])
         @ results_of (example_response [example_item 2 ''Sequel'',
                                         example_item 130 ''Keyword Movie''])
         @ results_of (example_response [example_item 1 ''Collection Movie'',
                                         example_item 4 ''Matrix''])))
      = [example_item 1 ''Collection Movie'', example_item 2 ''Sequel'',
         example_item 130 ''Keyword Movie'', example_item 4 ''Matrix'']"
    by code_simp
  from search_deduplicates [OF h1 h2 h3 h4] obtain merged unique where
    m: "merged =
          results_of (example_response [example_item 1 ''Collection Movie'',
                                        example_item 2 ''Sequel''])
          @ results_of (example_response [example_item 2 ''Sequel'',
                                          example_item 130 ''Keyword Movie''])
          @ results_of (example_response [example_item 1 ''Collection Movie'',
                                          example_item 4 ''Matrix''])"
    and u: "unique = first_seen [] (filter truthy_id merged)"
    and s: "search example_upstream ''matrix'' ''multi'' 1 =
       Inr \<lparr>sr_query = ''matrix'',
            sr_results = (if unique = [] then [no_results_item] else unique)\<rparr>"
    by blast
  have "unique = [example_item 1 ''Collection Movie'', example_item 2 ''Sequel'',
                  example_item 130 ''Keyword Movie'', example_item 4 ''Matrix'']"
    unfolding u m by (rule e)
  with s have "search example_upstream ''matrix'' ''multi'' 1 =
       Inr \<lparr>sr_query = ''matrix'',
            sr_results = [example_item 1 ''Collection Movie'', example_item 2 ''Sequel'',
                          example_item 130 ''Keyword Movie'', example_item 4 ''Matrix'']\<rparr>"
    by simp
  with h1 h2 h3 h4 show ?thesis
    by (intro conjI)
qed

text \<open>
  Claim C2 as it is stated fails on an item whose id is 0. The title search lists
  an item with the id 0 and the title 5, the other sub-searches find nothing: the
  id 0 is one of the distinct ids of the concatenation, yet the returned list holds
  the title 5 only, where de-duplication in first-seen order would keep both items.
\<close>

theorem search_zero_id_counterexample:
  "get_collection_movies zero_id_upstream ''q'' = Inr empty_response
   \<and> keyword_search zero_id_upstream ''q'' = Inr empty_response
   \<and> search_title zero_id_upstream ''multi'' ''q'' 1 =
       Inr (example_response [example_item 0 ''Zero'', example_item 5 ''Five''])
   \<and> results_of empty_response @ results_of empty_response
        @ results_of (example_response [example_item 0 ''Zero'', example_item 5 ''Five''])
       = [example_item 0 ''Zero'', example_item 5 ''Five'']
   \<and> Some 0 \<in> set (map ri_id [example_item 0 ''Zero'', example_item 5 ''Five''])
   \<and> search zero_id_upstream ''q'' ''multi'' 1 =
       Inr \<lparr>sr_query = ''q'', sr_results = [example_item 5 ''Five'']\<rparr>
   \<and> count_list (map ri_id [example_item 5 ''Five'']) (Some 0) = 0
   \<and> first_seen [] [example_item 0 ''Zero'', example_item 5 ''Five'']
       = [example_item 0 ''Zero'', example_item 5 ''Five'']"
  by code_simp

section \<open>Properties of the provider refresh\<close>

lemma replayableD:
  assumes "replayable item f" and "f s = (r, s')"
  shows "sp_tmdb_id ` set (ts_providers s) \<subseteq> sp_tmdb_id ` set (ts_providers s')
      \<and> (\<exists>new. ts_rows s' = ts_rows s @ new \<and> (\<forall>x \<in> set new. ar_item x = item))
      \<and> (distinct (ts_rows s) \<longrightarrow> distinct (ts_rows s'))
      \<and> (case r of
            Returned u \<Rightarrow>
              ts_needs_rollback s' = ts_needs_rollback s
            \<and> (\<forall>P. sp_tmdb_id ` set (ts_providers s') \<subseteq> sp_tmdb_id ` set P \<longrightarrow>
                   f (s\<lparr>ts_providers := P\<rparr>) = (Returned (), s'\<lparr>ts_providers := P\<rparr>))
          | Raised e \<Rightarrow> f (s\<lparr>ts_providers := ts_providers s'\<rparr>) = (Raised e, s'))"
  using assms(1) [unfolded replayable_def, rule_format, OF assms(2)] .

lemma replayable_providers:
  "replayable item f \<Longrightarrow> f s = (r, s') \<Longrightarrow>
     sp_tmdb_id ` set (ts_providers s) \<subseteq> sp_tmdb_id ` set (ts_providers s')"
  by (drule (1) replayableD) (erule conjunct1)

lemma replayable_rows:
  "replayable item f \<Longrightarrow> f s = (r, s') \<Longrightarrow>
     \<exists>new. ts_rows s' = ts_rows s @ new \<and> (\<forall>x \<in> set new. ar_item x = item)"
  by (drule (1) replayableD) (elim conjE, assumption)

lemma replayable_distinct:
  "replayable item f \<Longrightarrow> f s = (r, s') \<Longrightarrow> distinct (ts_rows s) \<Longrightarrow> distinct (ts_rows s')"
  by (drule (1) replayableD) (elim conjE impE, assumption+)

lemma replayable_returned:
  assumes "replayable item f" and "f s = (Returned u, s')"
  shows "ts_needs_rollback s' = ts_needs_rollback s"
    and "sp_tmdb_id ` set (ts_providers s') \<subseteq> sp_tmdb_id ` set P \<Longrightarrow>
         f (s\<lparr>ts_providers := P\<rparr>) = (Returned (), s'\<lparr>ts_providers := P\<rparr>)"
proof -
  from replayableD [OF assms, unfolded outcome.case] have
    c: "ts_needs_rollback s' = ts_needs_rollback s
            \<and> (\<forall>P. sp_tmdb_id ` set (ts_providers s') \<subseteq> sp_tmdb_id ` set P \<longrightarrow>
                   f (s\<lparr>ts_providers := P\<rparr>) = (Returned (), s'\<lparr>ts_providers := P\<rparr>))"
    by (elim conjE) (intro conjI; assumption)
  from c show "ts_needs_rollback s' = ts_needs_rollback s" ..
  from c have "\<forall>P. sp_tmdb_id ` set (ts_providers s') \<subseteq> sp_tmdb_id ` set P \<longrightarrow>
                   f (s\<lparr>ts_providers := P\<rparr>) = (Returned (), s'\<lparr>ts_providers := P\<rparr>)" ..
  then show "sp_tmdb_id ` set (ts_providers s') \<subseteq> sp_tmdb_id ` set P \<Longrightarrow>
         f (s\<lparr>ts_providers := P\<rparr>) = (Returned (), s'\<lparr>ts_providers := P\<rparr>)"
    by (elim allE impE)
qed

lemma replayable_raised:
  assumes "replayable item f" and "f s = (Raised e, s')"
  shows "f (s\<lparr>ts_providers := ts_providers s'\<rparr>) = (Raised e, s')"
  using replayableD [OF assms, unfolded outcome.case] by (elim conjE)


lemma replayableI:
  assumes p: "\<And>s r s'. f s = (r, s') \<Longrightarrow>
        sp_tmdb_id ` set (ts_providers s) \<subseteq> sp_tmdb_id ` set (ts_providers s')"
    and a: "\<And>s r s'. f s = (r, s') \<Longrightarrow>
        \<exists>new. ts_rows s' = ts_rows s @ new \<and> (\<forall>x \<in> set new. ar_item x = item)"
    and d: "\<And>s r s'. f s = (r, s') \<Longrightarrow> distinct (ts_rows s) \<Longrightarrow> distinct (ts_rows s')"
    and n: "\<And>s u s'. f s = (Returned u, s') \<Longrightarrow> ts_needs_rollback s' = ts_needs_rollback s"
    and k: "\<And>s u s' P. f s = (Returned u, s') \<Longrightarrow>
        sp_tmdb_id ` set (ts_providers s') \<subseteq> sp_tmdb_id ` set P \<Longrightarrow>
        f (s\<lparr>ts_providers := P\<rparr>) = (Returned (), s'\<lparr>ts_providers := P\<rparr>)"
    and e: "\<And>s e s'. f s = (Raised e, s') \<Longrightarrow>
        f (s\<lparr>ts_providers := ts_providers s'\<rparr>) = (Raised e, s')"
  shows "replayable item f"
  unfolding replayable_def
proof (intro allI impI conjI)
  fix s r s'
  assume fs: "f s = (r, s')"
  show "sp_tmdb_id ` set (ts_providers s) \<subseteq> sp_tmdb_id ` set (ts_providers s')"
    by (rule p [OF fs])
  show "\<exists>new. ts_rows s' = ts_rows s @ new \<and> (\<forall>x \<in> set new. ar_item x = item)"
    by (rule a [OF fs])
  show "distinct (ts_rows s')" if "distinct (ts_rows s)"
    using fs that by (rule d)
  show "case r of
            Returned u \<Rightarrow>
              ts_needs_rollback s' = ts_needs_rollback s
            \<and> (\<forall>P. sp_tmdb_id ` set (ts_providers s') \<subseteq> sp_tmdb_id ` set P \<longrightarrow>
                   f (s\<lparr>ts_providers := P\<rparr>) = (Returned (), s'\<lparr>ts_providers := P\<rparr>))
          | Raised e \<Rightarrow> f (s\<lparr>ts_providers := ts_providers s'\<rparr>) = (Raised e, s')"
  proof (cases r)
    case (Returned u)
    with fs have fs': "f s = (Returned u, s')"
      by simp
    show ?thesis
      unfolding Returned outcome.case
    proof (intro conjI allI impI)
      show "ts_needs_rollback s' = ts_needs_rollback s"
        by (rule n [OF fs'])
      show "f (s\<lparr>ts_providers := P\<rparr>) = (Returned (), s'\<lparr>ts_providers := P\<rparr>)"
        if "sp_tmdb_id ` set (ts_providers s') \<subseteq> sp_tmdb_id ` set P" for P
        using fs' that by (rule k)
    qed
  next
    case (Raised err)
    with fs have fs': "f s = (Raised err, s')"
      by simp
    show ?thesis
      unfolding Raised outcome.case by (rule e [OF fs'])
  qed
qed

lemma replayable_skip: "replayable item (\<lambda>s. (Returned (), s))"
  by (rule replayableI) auto

lemma then_do_Returned:
  "then_do f g s = (r, s') \<Longrightarrow> f s = (Returned u, s1) \<Longrightarrow> g s1 = (r, s')"
  by (simp add: then_do_def)

lemma then_do_cases:
  assumes "then_do f g s = (r, s')"
  obtains (raised) e where "f s = (Raised e, s')" "r = Raised e"
    | (returned) u s1 where "f s = (Returned u, s1)" "g s1 = (r, s')"
proof (cases "f s")
  case (Pair o1 s1)
  show ?thesis
  proof (cases o1)
    case (Returned u)
    with Pair assms have "g s1 = (r, s')" by (simp add: then_do_def)
    with Pair Returned show ?thesis by (intro returned) auto
  next
    case (Raised e)
    with Pair assms have "r = Raised e" "s' = s1" by (simp_all add: then_do_def)
    with Pair Raised show ?thesis by (intro raised) auto
  qed
qed

lemma replayable_then_do:
  assumes f: "replayable item f" and g: "replayable item g"
  shows "replayable item (then_do f g)"
proof (rule replayableI)
  fix s r s'
  assume t: "then_do f g s = (r, s')"
  from t show "sp_tmdb_id ` set (ts_providers s) \<subseteq> sp_tmdb_id ` set (ts_providers s')"
  proof (cases rule: then_do_cases)
    case (raised e)
    then show ?thesis using replayable_providers [OF f] by blast
  next
    case (returned u s1)
    from replayable_providers [OF f returned(1)] replayable_providers [OF g returned(2)]
    show ?thesis by (rule subset_trans)
  qed
  from t show "\<exists>new. ts_rows s' = ts_rows s @ new \<and> (\<forall>x \<in> set new. ar_item x = item)"
  proof (cases rule: then_do_cases)
    case (raised e)
    then show ?thesis using replayable_rows [OF f] by blast
  next
    case (returned u s1)
    from replayable_rows [OF f returned(1)] obtain n1
      where n1: "ts_rows s1 = ts_rows s @ n1" "\<forall>x \<in> set n1. ar_item x = item" by blast
    from replayable_rows [OF g returned(2)] obtain n2
      where n2: "ts_rows s' = ts_rows s1 @ n2" "\<forall>x \<in> set n2. ar_item x = item" by blast
    from n1 n2 have "ts_rows s' = ts_rows s @ (n1 @ n2)" "\<forall>x \<in> set (n1 @ n2). ar_item x = item"
      by auto
    then show ?thesis by blast
  qed
  from t show "distinct (ts_rows s')" if "distinct (ts_rows s)"
  proof (cases rule: then_do_cases)
    case (raised e)
    from replayable_distinct [OF f raised(1) that] show ?thesis .
  next
    case (returned u s1)
    from replayable_distinct [OF g returned(2) replayable_distinct [OF f returned(1) that]]
    show ?thesis .
  qed
next
  fix s u s'
  assume t: "then_do f g s = (Returned u, s')"
  from t obtain v s1 where fs: "f s = (Returned v, s1)" and gs: "g s1 = (Returned u, s')"
    by (cases rule: then_do_cases) auto
  from replayable_returned(1) [OF f fs] replayable_returned(1) [OF g gs]
  show "ts_needs_rollback s' = ts_needs_rollback s"
    by simp
  fix P :: "streaming_provider list"
  assume P: "sp_tmdb_id ` set (ts_providers s') \<subseteq> sp_tmdb_id ` set P"
  from replayable_providers [OF g gs] P
  have P1: "sp_tmdb_id ` set (ts_providers s1) \<subseteq> sp_tmdb_id ` set P"
    by (rule subset_trans)
  have "f (s\<lparr>ts_providers := P\<rparr>) = (Returned (), s1\<lparr>ts_providers := P\<rparr>)"
    by (rule replayable_returned(2) [OF f fs P1])
  moreover have "g (s1\<lparr>ts_providers := P\<rparr>) = (Returned (), s'\<lparr>ts_providers := P\<rparr>)"
    by (rule replayable_returned(2) [OF g gs P])
  ultimately show "then_do f g (s\<lparr>ts_providers := P\<rparr>) = (Returned (), s'\<lparr>ts_providers := P\<rparr>)"
    by (simp add: then_do_def)
next
  fix s e s'
  assume t: "then_do f g s = (Raised e, s')"
  from t show "then_do f g (s\<lparr>ts_providers := ts_providers s'\<rparr>) = (Raised e, s')"
  proof (cases rule: then_do_cases)
    case (raised e')
    then have "f s = (Raised e, s')" by simp
    from replayable_raised [OF f this] show ?thesis
      by (simp add: then_do_def)
  next
    case (returned v s1)
    have "f (s\<lparr>ts_providers := ts_providers s'\<rparr>)
        = (Returned (), s1\<lparr>ts_providers := ts_providers s'\<rparr>)"
      by (rule replayable_returned(2) [OF f returned(1) replayable_providers [OF g returned(2)]])
    moreover have "g (s1\<lparr>ts_providers := ts_providers s'\<rparr>) = (Raised e, s')"
      by (rule replayable_raised [OF g returned(2)])
    ultimately show ?thesis
      by (simp add: then_do_def)
  qed
qed

lemma replayable_for_each:
  assumes "\<And>x. replayable item (body x)"
  shows "replayable item (for_each body xs)"
proof (induction xs)
  case Nil
  have "for_each body [] = (\<lambda>s. (Returned (), s))"
    by (rule ext) simp
  then show ?case
    by (simp only: replayable_skip)
next
  case (Cons x xs)
  have "for_each body (x # xs) = then_do (body x) (for_each body xs)"
    by (rule ext) simp
  then show ?case
    using replayable_then_do [OF assms [of x] Cons.IH] by simp
qed


lemma find_provider:
  assumes "pid \<in> sp_tmdb_id ` set P"
  shows "\<exists>p. find (\<lambda>p. sp_tmdb_id p = pid) P = Some p \<and> sp_tmdb_id p = pid"
  using assms by (induction P) auto

lemma find_no_provider:
  assumes "pid \<notin> sp_tmdb_id ` set P"
  shows "find (\<lambda>p. sp_tmdb_id p = pid) P = None"
  using assms by (induction P) auto

lemma create_offer_eq:
  "create_offer item region t pd s =
     (case pj_provider_id pd of
        None \<Rightarrow> (Raised KeyError, s)
      | Some pid \<Rightarrow>
          (case pj_provider_name pd of
             None \<Rightarrow> (Raised KeyError, s)
           | Some name \<Rightarrow>
               create_row \<lparr>ar_item = item, ar_provider = pid, ar_region = region, ar_type = t\<rparr>
                 (if pid \<in> sp_tmdb_id ` set (ts_providers s) then s
                  else s\<lparr>ts_providers := ts_providers s @
                          [\<lparr>sp_name = name, sp_tmdb_id = pid,
                            sp_logo_path = (case pj_logo_path pd of Some l \<Rightarrow> l | None \<Rightarrow> []),
                            sp_display_priority =
                              (case pj_display_priority pd of Some d \<Rightarrow> d | None \<Rightarrow> 0)\<rparr>]\<rparr>)))"
proof (cases "pj_provider_id pd")
  case None
  then show ?thesis by (simp add: create_offer_def get_or_create_provider_def)
next
  case (Some pid)
  note pid = this
  show ?thesis
  proof (cases "pj_provider_name pd")
    case None
    with pid show ?thesis by (simp add: create_offer_def get_or_create_provider_def)
  next
    case (Some name)
    show ?thesis
    proof (cases "pid \<in> sp_tmdb_id ` set (ts_providers s)")
      case True
      from find_provider [OF True] obtain p
        where "find (\<lambda>p. sp_tmdb_id p = pid) (ts_providers s) = Some p" "sp_tmdb_id p = pid"
        by blast
      with pid Some True show ?thesis
        by (simp add: create_offer_def get_or_create_provider_def)
    next
      case False
      from find_no_provider [OF False] pid Some False show ?thesis
        by (simp add: create_offer_def get_or_create_provider_def Let_def)
    qed
  qed
qed

lemma replayable_create_offer: "replayable item (create_offer item region t pd)"
proof (rule replayableI)
  fix s r s'
  assume "create_offer item region t pd s = (r, s')"
  then show "sp_tmdb_id ` set (ts_providers s) \<subseteq> sp_tmdb_id ` set (ts_providers s')"
    by (auto simp: create_offer_eq create_row_def split: option.splits if_splits)
next
  fix s r s'
  assume "create_offer item region t pd s = (r, s')"
  then show "\<exists>new. ts_rows s' = ts_rows s @ new \<and> (\<forall>x \<in> set new. ar_item x = item)"
    by (auto simp: create_offer_eq create_row_def split: option.splits if_splits)
next
  fix s r s'
  assume "create_offer item region t pd s = (r, s')" "distinct (ts_rows s)"
  then show "distinct (ts_rows s')"
    by (auto simp: create_offer_eq create_row_def split: option.splits if_splits)
next
  fix s u s'
  assume "create_offer item region t pd s = (Returned u, s')"
  then show "ts_needs_rollback s' = ts_needs_rollback s"
    by (auto simp: create_offer_eq create_row_def split: option.splits if_splits)
next
  fix s u s' and P :: "streaming_provider list"
  assume "create_offer item region t pd s = (Returned u, s')"
    "sp_tmdb_id ` set (ts_providers s') \<subseteq> sp_tmdb_id ` set P"
  then show "create_offer item region t pd (s\<lparr>ts_providers := P\<rparr>)
      = (Returned (), s'\<lparr>ts_providers := P\<rparr>)"
    by (auto simp: create_offer_eq create_row_def split: option.splits if_splits) blast+
next
  fix s e s'
  assume "create_offer item region t pd s = (Raised e, s')"
  then show "create_offer item region t pd (s\<lparr>ts_providers := ts_providers s'\<rparr>) = (Raised e, s')"
    by (auto simp: create_offer_eq create_row_def split: option.splits if_splits)
qed


lemma replayable_update_region: "replayable item (update_region item entry)"
proof (cases entry)
  case (Pair region rd)
  show ?thesis
  proof (cases "region \<in> set ALLOWED_REGIONS")
    case False
    with Pair have "update_region item entry = (\<lambda>s. (Returned (), s))"
      by (intro ext) (simp add: update_region_def)
    then show ?thesis
      by (simp only: replayable_skip)
  next
    case True
    with Pair have "update_region item entry =
        then_do (for_each (create_offer item region Flatrate) (rd_flatrate rd))
          (then_do (for_each (create_offer item region Rent) (rd_rent rd))
             (for_each (create_offer item region Buy) (rd_buy rd)))"
      by (intro ext) (simp add: update_region_def)
    then show ?thesis
      by (simp only: replayable_then_do replayable_for_each replayable_create_offer)
  qed
qed

lemma replayable_regions: "replayable item (for_each (update_region item) providers_data)"
  by (rule replayable_for_each) (rule replayable_update_region)

lemma update_item_providers_cases:
  assumes "\<not> ts_needs_rollback s"
    and "for_each (update_region item) providers_data (delete_rows item s) = (r, s1)"
  shows "update_item_providers item providers_data s =
     (Returned (case r of Returned u \<Rightarrow> True | Raised e \<Rightarrow> False),
      if ts_needs_rollback s1 then s else s1)"
proof -
  have "s\<lparr>ts_needs_rollback := False\<rparr> = s"
    using assms(1) by simp
  then show ?thesis
    using assms(2)
    by (cases r)
       (simp_all add: update_item_providers_def atomic_def update_providers_try_def
          update_providers_body_def)
qed

lemma update_item_providers_idempotent:
  assumes "\<not> ts_needs_rollback s"
  shows "update_item_providers item providers_data
           (snd (update_item_providers item providers_data s))
         = update_item_providers item providers_data s"
proof -
  let ?B = "for_each (update_region item) providers_data"
  have rep: "replayable item ?B"
    by (rule replayable_regions)
  obtain r s1 where b: "?B (delete_rows item s) = (r, s1)"
    by (cases "?B (delete_rows item s)")
  note u = update_item_providers_cases [OF assms b]
  show ?thesis
  proof (cases "ts_needs_rollback s1")
    case True
    with u show ?thesis
      by simp
  next
    case False
    from replayable_rows [OF rep b] obtain new
      where rows: "ts_rows s1 = ts_rows (delete_rows item s) @ new"
        and new: "\<forall>x \<in> set new. ar_item x = item"
      by blast
    from new have "filter (\<lambda>r. ar_item r \<noteq> item) new = []"
      by (simp add: filter_empty_conv)
    with rows have frows: "filter (\<lambda>r. ar_item r \<noteq> item) (ts_rows s1)
        = filter (\<lambda>r. ar_item r \<noteq> item) (ts_rows s)"
      by (simp add: delete_rows_def)
    have del: "delete_rows item s1 = (delete_rows item s)\<lparr>ts_providers := ts_providers s1\<rparr>"
      using frows False assms by (intro table_state.equality) (simp_all add: delete_rows_def)
    have again: "?B (delete_rows item s1) = (r, s1)"
    proof (cases r)
      case (Returned v)
      with b have b': "?B (delete_rows item s) = (Returned v, s1)"
        by simp
      have "?B ((delete_rows item s)\<lparr>ts_providers := ts_providers s1\<rparr>)
          = (Returned (), s1\<lparr>ts_providers := ts_providers s1\<rparr>)"
        by (rule replayable_returned(2) [OF rep b']) simp
      with del Returned show ?thesis
        by simp
    next
      case (Raised e)
      with b have b': "?B (delete_rows item s) = (Raised e, s1)"
        by simp
      from replayable_raised [OF rep b'] del Raised show ?thesis
        by simp
    qed
    from False have nr: "\<not> ts_needs_rollback s1" .
    from update_item_providers_cases [OF nr again] u False show ?thesis
      by simp
  qed
qed

lemma update_item_providers_distinct:
  assumes "\<not> ts_needs_rollback s" and "distinct (ts_rows s)"
  shows "distinct (ts_rows (snd (update_item_providers item providers_data s)))"
proof -
  let ?B = "for_each (update_region item) providers_data"
  obtain r s1 where b: "?B (delete_rows item s) = (r, s1)"
    by (cases "?B (delete_rows item s)")
  have "distinct (ts_rows (delete_rows item s))"
    using assms(2) by (simp add: delete_rows_def)
  with replayable_regions b have "distinct (ts_rows s1)"
    by (rule replayable_distinct)
  with assms(2) show ?thesis
    by (simp add: update_item_providers_cases [OF assms(1) b])
qed


lemma for_each_rows:
  assumes body: "\<And>x s u s'. body x s = (Returned u, s') \<Longrightarrow> ts_rows s' = ts_rows s @ rows_of x"
    and "for_each body xs s = (Returned u, s')"
  shows "ts_rows s' = ts_rows s @ concat (map rows_of xs)"
  using assms(2)
proof (induction xs arbitrary: s)
  case Nil
  then show ?case by simp
next
  case (Cons x xs)
  from Cons.prems have "then_do (body x) (for_each body xs) s = (Returned u, s')"
    by simp
  then obtain v s1 where x: "body x s = (Returned v, s1)"
    and rest: "for_each body xs s1 = (Returned u, s')"
    by (cases rule: then_do_cases) auto
  from body [OF x] Cons.IH [OF rest] show ?case
    by simp
qed

lemma create_offer_rows:
  assumes "create_offer item region t pd s = (Returned u, s')"
  shows "ts_rows s' = ts_rows s @
     (case pj_provider_id pd of
        Some pid \<Rightarrow> [\<lparr>ar_item = item, ar_provider = pid, ar_region = region, ar_type = t\<rparr>]
      | None \<Rightarrow> [])"
  using assms
  by (auto simp: create_offer_eq create_row_def split: option.splits if_splits)

lemma offers_rows:
  assumes "for_each (create_offer item region t) entries s = (Returned u, s')"
  shows "ts_rows s' = ts_rows s @ offer_rows item region t entries"
  unfolding offer_rows_def
  using _ assms by (rule for_each_rows) (rule create_offer_rows)

lemma update_region_rows:
  assumes "update_region item entry s = (Returned u, s')"
  shows "ts_rows s' = ts_rows s @ region_rows item entry"
proof (cases entry)
  case (Pair region rd)
  show ?thesis
  proof (cases "region \<in> set ALLOWED_REGIONS")
    case False
    with Pair assms show ?thesis
      by (simp add: update_region_def region_rows_def)
  next
    case True
    with Pair assms have t: "then_do (for_each (create_offer item region Flatrate) (rd_flatrate rd))
          (then_do (for_each (create_offer item region Rent) (rd_rent rd))
             (for_each (create_offer item region Buy) (rd_buy rd))) s = (Returned u, s')"
      by (simp add: update_region_def)
    then obtain v1 s1 where
      f: "for_each (create_offer item region Flatrate) (rd_flatrate rd) s = (Returned v1, s1)"
      and t2: "then_do (for_each (create_offer item region Rent) (rd_rent rd))
             (for_each (create_offer item region Buy) (rd_buy rd)) s1 = (Returned u, s')"
      by (cases rule: then_do_cases) auto
    from t2 obtain v2 s2 where
      r: "for_each (create_offer item region Rent) (rd_rent rd) s1 = (Returned v2, s2)"
      and b: "for_each (create_offer item region Buy) (rd_buy rd) s2 = (Returned u, s')"
      by (cases rule: then_do_cases) auto
    from offers_rows [OF f] offers_rows [OF r] offers_rows [OF b] Pair True show ?thesis
      by (simp add: region_rows_def)
  qed
qed

lemma regions_rows:
  assumes "for_each (update_region item) providers_data s = (Returned u, s')"
  shows "ts_rows s' = ts_rows s @ response_rows item providers_data"
  unfolding response_rows_def
  using _ assms by (rule for_each_rows) (rule update_region_rows)

lemma update_item_providers_replaces:
  assumes "\<not> ts_needs_rollback s"
    and "update_item_providers item providers_data s = (Returned True, s')"
  shows "ts_rows s' = filter (\<lambda>r. ar_item r \<noteq> item) (ts_rows s) @ response_rows item providers_data"
proof -
  let ?B = "for_each (update_region item) providers_data"
  obtain r s1 where b: "?B (delete_rows item s) = (r, s1)"
    by (cases "?B (delete_rows item s)")
  from assms(2) update_item_providers_cases [OF assms(1) b]
  obtain u where r: "r = Returned u" and s': "s' = (if ts_needs_rollback s1 then s else s1)"
    by (cases r) auto
  from replayable_returned(1) [OF replayable_regions b [unfolded r]] assms(1)
  have "\<not> ts_needs_rollback s1"
    by (simp add: delete_rows_def)
  with s' have "s' = s1"
    by simp
  with regions_rows [OF b [unfolded r]] show ?thesis
    by (simp add: delete_rows_def)
qed

lemma update_item_providers_other_items:
  assumes "\<not> ts_needs_rollback s"
  shows "filter (\<lambda>r. ar_item r \<noteq> item)
           (ts_rows (snd (update_item_providers item providers_data s)))
         = filter (\<lambda>r. ar_item r \<noteq> item) (ts_rows s)"
proof -
  let ?B = "for_each (update_region item) providers_data"
  obtain r s1 where b: "?B (delete_rows item s) = (r, s1)"
    by (cases "?B (delete_rows item s)")
  from replayable_rows [OF replayable_regions b] obtain new
    where rows: "ts_rows s1 = ts_rows (delete_rows item s) @ new"
      and new: "\<forall>x \<in> set new. ar_item x = item"
    by blast
  from new have "filter (\<lambda>r. ar_item r \<noteq> item) new = []"
    by (simp add: filter_empty_conv)
  with rows have "filter (\<lambda>r. ar_item r \<noteq> item) (ts_rows s1)
        = filter (\<lambda>r. ar_item r \<noteq> item) (ts_rows s)"
    by (simp add: delete_rows_def)
  then show ?thesis
    by (simp add: update_item_providers_cases [OF assms b])
qed

lemma update_item_providers_flag:
  assumes "\<not> ts_needs_rollback s"
  shows "\<not> ts_needs_rollback (snd (update_item_providers item providers_data s))"
proof -
  let ?B = "for_each (update_region item) providers_data"
  obtain r s1 where b: "?B (delete_rows item s) = (r, s1)"
    by (cases "?B (delete_rows item s)")
  show ?thesis
    using assms by (simp add: update_item_providers_cases [OF assms b])
qed

lemma response_rows_item: "\<forall>x \<in> set (response_rows item providers_data). ar_item x = item"
  by (auto simp: response_rows_def region_rows_def offer_rows_def split: if_splits option.splits)


lemma update_movie_providers_eq:
  "update_movie_providers movie providers_data db =
     (fst (update_item_providers movie providers_data
             \<lparr>ts_providers = db_streaming_providers db, ts_rows = db_movie_providers db,
              ts_needs_rollback = False\<rparr>),
      db\<lparr>db_streaming_providers :=
            ts_providers (snd (update_item_providers movie providers_data
              \<lparr>ts_providers = db_streaming_providers db, ts_rows = db_movie_providers db,
               ts_needs_rollback = False\<rparr>)),
          db_movie_providers :=
            ts_rows (snd (update_item_providers movie providers_data
              \<lparr>ts_providers = db_streaming_providers db, ts_rows = db_movie_providers db,
               ts_needs_rollback = False\<rparr>))\<rparr>)"
  by (simp add: update_movie_providers_def split: prod.splits)

lemma update_tv_providers_eq:
  "update_tv_providers show providers_data db =
     (fst (update_item_providers show providers_data
             \<lparr>ts_providers = db_streaming_providers db, ts_rows = db_tvshow_providers db,
              ts_needs_rollback = False\<rparr>),
      db\<lparr>db_streaming_providers :=
            ts_providers (snd (update_item_providers show providers_data
              \<lparr>ts_providers = db_streaming_providers db, ts_rows = db_tvshow_providers db,
               ts_needs_rollback = False\<rparr>)),
          db_tvshow_providers :=
            ts_rows (snd (update_item_providers show providers_data
              \<lparr>ts_providers = db_streaming_providers db, ts_rows = db_tvshow_providers db,
               ts_needs_rollback = False\<rparr>))\<rparr>)"
  by (simp add: update_tv_providers_def split: prod.splits)

lemma table_state_after:
  assumes "\<not> ts_needs_rollback s"
  shows "\<lparr>ts_providers = ts_providers (snd (update_item_providers item providers_data s)),
          ts_rows = ts_rows (snd (update_item_providers item providers_data s)),
          ts_needs_rollback = False\<rparr>
         = snd (update_item_providers item providers_data s)"
  using update_item_providers_flag [OF assms, of item providers_data]
  by (intro table_state.equality) simp_all

lemma update_movie_providers_twice:
  "update_movie_providers movie providers_data
     (snd (update_movie_providers movie providers_data db))
   = update_movie_providers movie providers_data db"
proof -
  let ?s = "\<lparr>ts_providers = db_streaming_providers db, ts_rows = db_movie_providers db,
              ts_needs_rollback = False\<rparr>"
  have nr: "\<not> ts_needs_rollback ?s"
    by simp
  show ?thesis
    unfolding update_movie_providers_eq [of movie providers_data db]
    unfolding update_movie_providers_eq
    by (simp add: table_state_after [OF nr] update_item_providers_idempotent [OF nr])
qed

lemma update_tv_providers_twice:
  "update_tv_providers show providers_data
     (snd (update_tv_providers show providers_data db))
   = update_tv_providers show providers_data db"
proof -
  let ?s = "\<lparr>ts_providers = db_streaming_providers db, ts_rows = db_tvshow_providers db,
              ts_needs_rollback = False\<rparr>"
  have nr: "\<not> ts_needs_rollback ?s"
    by simp
  show ?thesis
    unfolding update_tv_providers_eq [of "show" providers_data db]
    unfolding update_tv_providers_eq
    by (simp add: table_state_after [OF nr] update_item_providers_idempotent [OF nr])
qed

text \<open>
  Claim C7. The per-item provider update is idempotent. For a fixed response, a
  second run on the database left by the first returns what the first returned and
  leaves that database as it is; in particular the item has the same set of
  availability rows after two runs as after one. A table without duplicate rows is
  left without duplicate rows. And when the update succeeds, the rows of the item
  are exactly the rows of the response, whatever rows the item had before: each run
  deletes the prior rows of the item and recreates them from the response.
\<close>

theorem update_movie_providers_idempotent:
  "update_movie_providers movie providers_data
     (snd (update_movie_providers movie providers_data db))
   = update_movie_providers movie providers_data db
   \<and> set (filter (\<lambda>r. ar_item r = movie)
        (db_movie_providers (snd (update_movie_providers movie providers_data
           (snd (update_movie_providers movie providers_data db))))))
     = set (filter (\<lambda>r. ar_item r = movie)
        (db_movie_providers (snd (update_movie_providers movie providers_data db))))
   \<and> (distinct (db_movie_providers db) \<longrightarrow>
        distinct (db_movie_providers (snd (update_movie_providers movie providers_data db))))
   \<and> (fst (update_movie_providers movie providers_data db) = Returned True \<longrightarrow>
        filter (\<lambda>r. ar_item r = movie)
          (db_movie_providers (snd (update_movie_providers movie providers_data db)))
        = response_rows movie providers_data)"
proof -
  let ?s = "\<lparr>ts_providers = db_streaming_providers db, ts_rows = db_movie_providers db,
              ts_needs_rollback = False\<rparr>"
  have nr: "\<not> ts_needs_rollback ?s"
    by simp
  have twice: "update_movie_providers movie providers_data
     (snd (update_movie_providers movie providers_data db))
   = update_movie_providers movie providers_data db"
    by (rule update_movie_providers_twice)
  have dist: "distinct (db_movie_providers (snd (update_movie_providers movie providers_data db)))"
    if "distinct (db_movie_providers db)"
    using update_item_providers_distinct [OF nr, of movie providers_data] that
    by (simp add: update_movie_providers_eq)
  have repl: "filter (\<lambda>r. ar_item r = movie)
          (db_movie_providers (snd (update_movie_providers movie providers_data db)))
        = response_rows movie providers_data"
    if "fst (update_movie_providers movie providers_data db) = Returned True"
  proof -
    from that have "update_item_providers movie providers_data ?s
        = (Returned True, snd (update_item_providers movie providers_data ?s))"
      by (simp add: update_movie_providers_eq prod_eq_iff)
    from update_item_providers_replaces [OF nr this]
    have rows: "db_movie_providers (snd (update_movie_providers movie providers_data db))
        = filter (\<lambda>r. ar_item r \<noteq> movie) (db_movie_providers db)
          @ response_rows movie providers_data"
      by (simp add: update_movie_providers_eq)
    have "filter (\<lambda>r. ar_item r = movie) (response_rows movie providers_data)
        = response_rows movie providers_data"
      using response_rows_item [of movie providers_data] by (simp add: filter_id_conv)
    then show ?thesis
      unfolding rows by simp
  qed
  from dist repl show ?thesis
    unfolding twice by blast
qed


text \<open>
  Movie 1 of the example database is refreshed from the well-formed response. The
  update succeeds, creates provider 337, and replaces the two rows of the movie by
  the three rows of the response for Norway; the entry for the region JP is left
  out. A second run returns the same and changes nothing.
\<close>

theorem update_movie_providers_idempotent_witness:
  "distinct (db_movie_providers example_database)
   \<and> fst (update_movie_providers 1 example_providers_data example_database) = Returned True
   \<and> db_movie_providers (snd (update_movie_providers 1 example_providers_data example_database))
       = [\<lparr>ar_item = 2, ar_provider = 8, ar_region = ''US'', ar_type = Flatrate\<rparr>,
          \<lparr>ar_item = 1, ar_provider = 8, ar_region = ''NO'', ar_type = Flatrate\<rparr>,
          \<lparr>ar_item = 1, ar_provider = 337, ar_region = ''NO'', ar_type = Flatrate\<rparr>,
          \<lparr>ar_item = 1, ar_provider = 9, ar_region = ''NO'', ar_type = Rent\<rparr>]
   \<and> update_movie_providers 1 example_providers_data
        (snd (update_movie_providers 1 example_providers_data example_database))
       = update_movie_providers 1 example_providers_data example_database
   \<and> distinct (db_movie_providers
        (snd (update_movie_providers 1 example_providers_data example_database)))
   \<and> filter (\<lambda>r. ar_item r = 1)
        (db_movie_providers (snd (update_movie_providers 1 example_providers_data
           example_database)))
       = response_rows 1 example_providers_data"
proof -
  have h1: "distinct (db_movie_providers example_database)"
    by code_simp
  have h2: "fst (update_movie_providers 1 example_providers_data example_database)
      = Returned True"
    by code_simp
  have e: "db_movie_providers
        (snd (update_movie_providers 1 example_providers_data example_database))
       = [\<lparr>ar_item = 2, ar_provider = 8, ar_region = ''US'', ar_type = Flatrate\<rparr>,
          \<lparr>ar_item = 1, ar_provider = 8, ar_region = ''NO'', ar_type = Flatrate\<rparr>,
          \<lparr>ar_item = 1, ar_provider = 337, ar_region = ''NO'', ar_type = Flatrate\<rparr>,
          \<lparr>ar_item = 1, ar_provider = 9, ar_region = ''NO'', ar_type = Rent\<rparr>]"
    by code_simp
  note t = update_movie_providers_idempotent [of 1 example_providers_data example_database]
  from t have a: "update_movie_providers 1 example_providers_data
        (snd (update_movie_providers 1 example_providers_data example_database))
       = update_movie_providers 1 example_providers_data example_database"
    by (rule conjunct1)
  from t h1 have b: "distinct (db_movie_providers
        (snd (update_movie_providers 1 example_providers_data example_database)))"
    by blast
  from t h2 have c: "filter (\<lambda>r. ar_item r = 1)
        (db_movie_providers (snd (update_movie_providers 1 example_providers_data
           example_database)))
       = response_rows 1 example_providers_data"
    by blast
  from h1 h2 e a b c show ?thesis
    by (intro conjI)
qed

lemma update_movie_providers_other_items:
  "filter (\<lambda>r. ar_item r \<noteq> movie)
     (db_movie_providers (snd (update_movie_providers movie providers_data db)))
   = filter (\<lambda>r. ar_item r \<noteq> movie) (db_movie_providers db)"
proof -
  let ?s = "\<lparr>ts_providers = db_streaming_providers db, ts_rows = db_movie_providers db,
              ts_needs_rollback = False\<rparr>"
  have nr: "\<not> ts_needs_rollback ?s"
    by simp
  from update_item_providers_other_items [OF nr, of movie providers_data] show ?thesis
    by (simp add: update_movie_providers_eq)
qed

lemma update_movie_providers_rolls_back_database_error:
  "update_movie_providers 1 duplicate_providers_data example_database
     = (Returned False, example_database)"
  by code_simp

text \<open>
  Claim C6 fails on the code. Movie 1 has two availability rows and is refreshed
  from a response whose second flatrate entry has no \<open>provider_id\<close>. The update
  deletes the two rows, writes the row of the first entry, and then fails with
  \<open>KeyError\<close>. The \<open>except\<close> clause inside the function catches the error and returns
  \<open>False\<close>, so the function returns normally and the transaction is committed: the
  database keeps the deletion and the one new row, the rent row of the movie is
  lost, and nothing is rolled back. The rows of movie 2, processed before, stay.
\<close>

theorem update_movie_providers_partial_commit:
  "update_movie_providers 1 broken_providers_data example_database =
     (Returned False,
      example_database\<lparr>db_movie_providers :=
        [\<lparr>ar_item = 2, ar_provider = 8, ar_region = ''US'', ar_type = Flatrate\<rparr>,
         \<lparr>ar_item = 1, ar_provider = 8, ar_region = ''NO'', ar_type = Flatrate\<rparr>]\<rparr>)
   \<and> snd (update_movie_providers 1 broken_providers_data example_database) \<noteq> example_database
   \<and> handle_movies (\<lambda>m. if m = 2 then example_providers_data else broken_providers_data)
        [2, 1] (example_database, 0, 0) =
       (\<lparr>db_streaming_providers =
           [example_provider 8 ''Netflix'', example_provider 9 ''Viaplay'',
            example_provider 337 ''Disney Plus''],
         db_movie_providers =
           [\<lparr>ar_item = 2, ar_provider = 8, ar_region = ''NO'', ar_type = Flatrate\<rparr>,
            \<lparr>ar_item = 2, ar_provider = 337, ar_region = ''NO'', ar_type = Flatrate\<rparr>,
            \<lparr>ar_item = 2, ar_provider = 9, ar_region = ''NO'', ar_type = Rent\<rparr>,
            \<lparr>ar_item = 1, ar_provider = 8, ar_region = ''NO'', ar_type = Flatrate\<rparr>],
         db_tvshow_providers = []\<rparr>, 1, 1)"
  by code_simp

end
